theory Spec2Isabelle
  imports Main "HOL-Library.Word"
begin

section \<open>Broker locators\<close>

text \<open>
  \<^verbatim>\<open>MqttClient.cpp\<close> uses a value type \<^verbatim>\<open>UriParts\<close> (fields \<^verbatim>\<open>scheme\<close>, \<^verbatim>\<open>host\<close>,
  \<^verbatim>\<open>port\<close>, \<^verbatim>\<open>path\<close>, predicates \<^verbatim>\<open>isWebSocket()\<close> and \<^verbatim>\<open>isSecure()\<close>) and two functions
  \<^verbatim>\<open>parseMqttUri\<close> and \<^verbatim>\<open>buildMqttUri\<close>. They are declared in \<^verbatim>\<open>UriUtils.h\<close>, which is
  not among the available sources. Everything in this section is therefore written from
  sections 3, 4.1 and 8 of the specification (\<open>TransportParts\<close>, \<open>Parse\<close>, \<open>Build\<close>).
\<close>

text \<open>
  Modelled from the spec: the scheme of \<^verbatim>\<open>UriParts\<close> (UriUtils.h is missing). The
  specification gives four schemes: plain, secure, websocket-plain, websocket-secure. The
  client writes them as the texts mqtt, mqtts, ws, wss.
\<close>

datatype scheme = Mqtt | Mqtts | Ws | Wss

text \<open>
  Modelled from the spec: the struct \<^verbatim>\<open>UriParts\<close> (UriUtils.h is missing), the
  specification's \<open>TransportParts\<close>: scheme, host, port (an integer) and path.
\<close>

record UriParts =
  scheme :: scheme
  host :: string
  port :: nat
  path :: string

text \<open>
  Modelled from the spec: \<^verbatim>\<open>UriParts::isWebSocket\<close> (UriUtils.h is missing); the two
  WebSocket schemes are ws and wss.
\<close>

definition isWebSocket :: "UriParts \<Rightarrow> bool" where
  "isWebSocket parts = (scheme parts = Ws \<or> scheme parts = Wss)"

text \<open>
  Modelled from the spec: \<^verbatim>\<open>UriParts::isSecure\<close> (UriUtils.h is missing); the two
  secure schemes are mqtts and wss.
\<close>

definition isSecure :: "UriParts \<Rightarrow> bool" where
  "isSecure parts = (scheme parts = Mqtts \<or> scheme parts = Wss)"

text \<open>
  Modelled from the spec: the text of a scheme as the builder emits it (UriUtils.h is
  missing): "scheme text is chosen from {mqtt, mqtts, ws, wss}".
\<close>

definition scheme_text :: "scheme \<Rightarrow> string" where
  "scheme_text sc = (case sc of Mqtt \<Rightarrow> ''mqtt'' | Mqtts \<Rightarrow> ''mqtts'' | Ws \<Rightarrow> ''ws'' | Wss \<Rightarrow> ''wss'')"

text \<open>
  Modelled from the spec: the default port of a scheme (UriUtils.h is missing):
  "defaulting per scheme (1883 plain/ws, 8883 secure/wss)".
\<close>

definition default_port :: "scheme \<Rightarrow> nat" where
  "default_port sc = (case sc of Mqtt \<Rightarrow> 1883 | Ws \<Rightarrow> 1883 | Mqtts \<Rightarrow> 8883 | Wss \<Rightarrow> 8883)"

text \<open>
  Modelled from the spec: ASCII lower-casing, for "recognized schemes (case-insensitive)"
  (UriUtils.h is missing).
\<close>

definition to_lower :: "char \<Rightarrow> char" where
  "to_lower c = (let n = (of_char c :: nat) in if 65 \<le> n \<and> n \<le> 90 then char_of (n + 32) else c)"

text \<open>
  Modelled from the spec: recognising the scheme text (UriUtils.h is missing): mqtt, mqtts,
  ws and wss in any letter case; "any other scheme ... yields a parse error".
\<close>

definition scheme_of_text :: "string \<Rightarrow> scheme option" where
  "scheme_of_text t =
     (let l = map to_lower t in
      if l = ''mqtt'' then Some Mqtt
      else if l = ''mqtts'' then Some Mqtts
      else if l = ''ws'' then Some Ws
      else if l = ''wss'' then Some Wss
      else None)"

text \<open>
  Modelled from the spec: splitting a locator at its first \<^verbatim>\<open>://\<close> (UriUtils.h is missing);
  "a locator with no :// separator yields a parse error" is the result \<open>None\<close>.
\<close>

fun split_separator :: "string \<Rightarrow> (string \<times> string) option" where
  "split_separator [] = None"
| "split_separator (c # cs) =
     (if take 3 (c # cs) = ''://'' then Some ([], drop 3 (c # cs))
      else (case split_separator cs of
              None \<Rightarrow> None
            | Some (a, b) \<Rightarrow> Some (c # a, b)))"

text \<open>
  Modelled from the spec: "embedded credentials in the authority portion are recognized and
  discarded" (UriUtils.h is missing). The specification does not say which \<^verbatim>\<open>@\<close> ends the
  credentials when there are several; here it is the last one, so that a host never contains
  \<^verbatim>\<open>@\<close>, as in the grammar \<^verbatim>\<open>scheme://[credentials@]host[:port][/path]\<close>.
\<close>

definition strip_credentials :: "string \<Rightarrow> string" where
  "strip_credentials authority = rev (takeWhile (\<lambda>c. c \<noteq> CHR ''@'') (rev authority))"

text \<open>
  Modelled from the spec: decimal digits, for "port, if present, must be a valid 16-bit
  unsigned integer" (UriUtils.h is missing).
\<close>

definition is_digit :: "char \<Rightarrow> bool" where
  "is_digit c = (let n = (of_char c :: nat) in 48 \<le> n \<and> n \<le> 57)"

text \<open>Modelled from the spec: the value of a decimal digit (UriUtils.h is missing).\<close>

definition digit_value :: "char \<Rightarrow> nat" where
  "digit_value c = (of_char c :: nat) - 48"

text \<open>
  Modelled from the spec: the value of a decimal numeral, most significant digit first
  (UriUtils.h is missing).
\<close>

definition parse_decimal :: "string \<Rightarrow> nat" where
  "parse_decimal t = foldl (\<lambda>acc c. 10 * acc + digit_value c) 0 t"

text \<open>
  Modelled from the spec: the port text of a locator (UriUtils.h is missing). It must be a
  non-empty decimal numeral; the data model gives the range of a port as 1 to 65535, and
  section 8 lists an out-of-range port among the invalid locators.
\<close>

definition parse_port :: "string \<Rightarrow> nat option" where
  "parse_port t =
     (if t \<noteq> [] \<and> list_all is_digit t \<and> 1 \<le> parse_decimal t \<and> parse_decimal t \<le> 65535
      then Some (parse_decimal t) else None)"

text \<open>
  Modelled from the spec: \<^verbatim>\<open>parseMqttUri\<close>, the specification's \<open>Parse\<close> (UriUtils.h is
  missing). The locator has the form \<^verbatim>\<open>scheme://[credentials@]host[:port][/path]\<close>. The
  authority runs to the first \<^verbatim>\<open>/\<close>; what follows, from that \<^verbatim>\<open>/\<close> on, is the path,
  "retained verbatim", and an absent path is \<^verbatim>\<open>/\<close>. The host runs to the first \<^verbatim>\<open>:\<close> of the
  authority without its credentials; an absent port is the default of the scheme. A missing
  separator, an unknown scheme, an empty host and an invalid port are parse errors (\<open>None\<close>):
  "callers observe failure, not a partially-filled struct".
\<close>

definition parseMqttUri :: "string \<Rightarrow> UriParts option" where
  "parseMqttUri uri =
     (case split_separator uri of
        None \<Rightarrow> None
      | Some (st, rest) \<Rightarrow>
          (case scheme_of_text st of
             None \<Rightarrow> None
           | Some sc \<Rightarrow>
               (let authority = takeWhile (\<lambda>c. c \<noteq> CHR ''/'') rest;
                    p = dropWhile (\<lambda>c. c \<noteq> CHR ''/'') rest;
                    hostport = strip_credentials authority;
                    h = takeWhile (\<lambda>c. c \<noteq> CHR '':'') hostport;
                    pt = dropWhile (\<lambda>c. c \<noteq> CHR '':'') hostport
                in if h = [] then None
                   else (case (if pt = [] then Some (default_port sc) else parse_port (tl pt)) of
                           None \<Rightarrow> None
                         | Some n \<Rightarrow>
                             Some \<lparr>scheme = sc, host = h, port = n,
                                   path = (if p = [] then ''/'' else p)\<rparr>))))"

text \<open>Modelled from the spec: the character of a decimal digit (UriUtils.h is missing).\<close>

definition digit_char :: "nat \<Rightarrow> char" where
  "digit_char d = char_of (48 + d)"

text \<open>
  Modelled from the spec: the decimal numeral of a port, as the builder writes it after the
  colon (UriUtils.h is missing).
\<close>

function show_decimal :: "nat \<Rightarrow> string" where
  "show_decimal n = (if n < 10 then [digit_char n] else show_decimal (n div 10) @ [digit_char (n mod 10)])"
  by pat_completeness auto
termination
  by (relation "measure (\<lambda>n. n)") auto

declare show_decimal.simps [simp del]

text \<open>
  Modelled from the spec: \<^verbatim>\<open>buildMqttUri\<close>, the specification's \<open>Build\<close> (UriUtils.h is
  missing): "emits \<^verbatim>\<open>scheme://host[:port]path\<close>, where scheme text is chosen from {mqtt,
  mqtts, ws, wss} per the transport flags, and path is included only when transport is
  WebSocket and is non-empty (otherwise omitted)". The port is left out when it is the
  default of the scheme: "default ports/paths may be normalized away", and the scenario of
  section 8 builds \<^verbatim>\<open>ws://broker.example.com/mqtt\<close> from a locator without a port.
\<close>

definition buildMqttUri :: "UriParts \<Rightarrow> string" where
  "buildMqttUri parts =
     scheme_text (scheme parts) @ ''://'' @ host parts @
     (if port parts = default_port (scheme parts) then [] else '':'' @ show_decimal (port parts)) @
     (if isWebSocket parts \<and> path parts \<noteq> [] then path parts else [])"


section \<open>The engine and what the client does to it\<close>

text \<open>
  The MQTT engine (esp-mqtt) is external. A client handle is a non-null
  \<^verbatim>\<open>esp_mqtt_client_handle_t\<close>; a null handle is \<open>None\<close>. An application callback is a
  \<^verbatim>\<open>std::function\<close>, which is empty (\<open>None\<close>) or holds a target, named here by a number.
  Nullable \<^verbatim>\<open>char*\<close> members and arguments are \<open>string option\<close>.
\<close>

type_synonym handle = nat
type_synonym callback = nat
type_synonym esp_err_t = int

definition ESP_OK :: esp_err_t where
  "ESP_OK = 0"

text \<open>
  The configuration handed to \<^verbatim>\<open>esp_mqtt_client_init\<close> by \<^verbatim>\<open>connectWithProtocol\<close>. The
  source fills it in three ways, chosen by the preprocessor; the two for a defined
  \<^verbatim>\<open>ESP_IDF_VERSION_MAJOR\<close> set the same values, including \<^verbatim>\<open>protocol_ver\<close>, and are the
  ones modelled (the third leaves the protocol version unset).
\<close>

record esp_mqtt_client_config_t =
  cfg_uri :: "string option"
  cfg_hostname :: "string option"
  cfg_port :: nat
  cfg_certificate :: "string option"
  cfg_skip_cert_common_name_check :: bool
  cfg_client_id :: "string option"
  cfg_username :: "string option"
  cfg_password :: "string option"
  cfg_client_certificate :: "string option"
  cfg_client_key :: "string option"
  cfg_keepalive :: nat
  cfg_protocol_ver :: int

text \<open>
  Everything the client does that is visible outside it, in order: the calls it makes to the
  engine, each with the value the engine returned, the fixed delay before a fallback
  reconnection, and the application callbacks it invokes. The message callback is handed
  pointers to the handler's two local buffers (256 and 512 bytes) and a length; the action
  records the contents of both buffers. Diagnostic output on the serial port is not
  recorded.
\<close>

datatype action =
    Client_stop handle
  | Client_destroy handle
  | Client_init esp_mqtt_client_config_t "handle option"
  | Client_register_event handle
  | Client_start handle esp_err_t
  | Client_disconnect handle
  | Client_publish handle "string option" "string option" int int int int
  | Client_subscribe handle "string option" int int
  | Client_unsubscribe handle "string option" int
  | Delay nat
  | Call_connect callback
  | Call_disconnect callback
  | Call_message callback "char list" "char list" int

text \<open>
  The engine's answers. What the engine returns is not determined by the client; each answer
  may depend on everything that happened before (the actions so far) and on the arguments of
  the call.
\<close>

record engine =
  esp_mqtt_client_init :: "action list \<Rightarrow> esp_mqtt_client_config_t \<Rightarrow> handle option"
  esp_mqtt_client_start :: "action list \<Rightarrow> handle \<Rightarrow> esp_err_t"
  esp_mqtt_client_publish :: "action list \<Rightarrow> handle \<Rightarrow> string option \<Rightarrow> string option \<Rightarrow> int"
  esp_mqtt_client_subscribe :: "action list \<Rightarrow> handle \<Rightarrow> string option \<Rightarrow> int \<Rightarrow> int"
  esp_mqtt_client_unsubscribe :: "action list \<Rightarrow> handle \<Rightarrow> string option \<Rightarrow> int"

section \<open>The client: MqttClient.h and MqttClient.cpp\<close>

text \<open>
  The members of class \<^verbatim>\<open>MqttClient\<close>; member \<^verbatim>\<open>_x\<close> is written \<open>m_x\<close>. The last field,
  \<open>trace\<close>, is not a member: it collects the actions of the client.
\<close>

record MqttClient =
  m_client :: "handle option"
  m_host :: "string option"
  m_port :: "16 word"
  m_path :: "string option"
  m_useWebSocket :: bool
  m_secure :: bool
  m_uri :: "string option"
  m_username :: "string option"
  m_password :: "string option"
  m_clientId :: "string option"
  m_keepalive :: "16 word"
  m_connected :: bool
  m_caCert :: "string option"
  m_clientCert :: "string option"
  m_clientKey :: "string option"
  m_skipCertVerify :: bool
  m_enableFallback :: bool
  m_usingFallback :: bool
  m_messageCallback :: "callback option"
  m_connectCallback :: "callback option"
  m_disconnectCallback :: "callback option"
  trace :: "action list"

text \<open>The constructor \<^verbatim>\<open>MqttClient::MqttClient()\<close>.\<close>

definition MqttClient_new :: MqttClient where
  "MqttClient_new =
     \<lparr>m_client = None, m_host = None, m_port = 1883, m_path = None, m_useWebSocket = False,
      m_secure = False, m_uri = None, m_username = None, m_password = None, m_clientId = None,
      m_keepalive = 30, m_connected = False, m_caCert = None, m_clientCert = None,
      m_clientKey = None, m_skipCertVerify = False, m_enableFallback = False,
      m_usingFallback = False, m_messageCallback = None, m_connectCallback = None,
      m_disconnectCallback = None, trace = []\<rparr>"

definition emit :: "action list \<Rightarrow> MqttClient \<Rightarrow> MqttClient" where
  "emit acts s = s\<lparr>trace := trace s @ acts\<rparr>"

subsection \<open>Configuration\<close>

text \<open>
  \<^verbatim>\<open>parseUriComponents\<close>: on a parse failure it returns at once; otherwise it stores host,
  port and the two transport flags, and the path only for a WebSocket scheme.
\<close>

definition parseUriComponents :: "string \<Rightarrow> MqttClient \<Rightarrow> MqttClient" where
  "parseUriComponents uri s =
     (case parseMqttUri uri of
        None \<Rightarrow> s
      | Some parts \<Rightarrow>
          (let s1 = s\<lparr>m_host := Some (host parts), m_port := of_nat (port parts),
                      m_useWebSocket := isWebSocket parts, m_secure := isSecure parts\<rparr>
           in if m_useWebSocket s1 then s1\<lparr>m_path := Some (path parts)\<rparr> else s1))"

text \<open>\<^verbatim>\<open>MqttClient::begin\<close> (\<open>begin\<close> is a keyword of the theory language).\<close>

definition begin_client :: "string \<Rightarrow> MqttClient \<Rightarrow> MqttClient" where
  "begin_client brokerUri s = parseUriComponents brokerUri s"

definition setServer :: "string \<Rightarrow> 16 word \<Rightarrow> MqttClient \<Rightarrow> MqttClient" where
  "setServer h p s = s\<lparr>m_host := Some h, m_port := p\<rparr>"

definition setWebSocket :: "bool \<Rightarrow> MqttClient \<Rightarrow> MqttClient" where
  "setWebSocket enable s = s\<lparr>m_useWebSocket := enable\<rparr>"

definition setPath :: "string option \<Rightarrow> MqttClient \<Rightarrow> MqttClient" where
  "setPath p s = (case p of None \<Rightarrow> s | Some t \<Rightarrow> s\<lparr>m_path := Some t\<rparr>)"

definition setCredentials :: "string option \<Rightarrow> string option \<Rightarrow> MqttClient \<Rightarrow> MqttClient" where
  "setCredentials username password s =
     (let s1 = (case username of None \<Rightarrow> s | Some u \<Rightarrow> s\<lparr>m_username := Some u\<rparr>)
      in (case password of None \<Rightarrow> s1 | Some pw \<Rightarrow> s1\<lparr>m_password := Some pw\<rparr>))"

definition setKeepalive :: "16 word \<Rightarrow> MqttClient \<Rightarrow> MqttClient" where
  "setKeepalive keepalive s = s\<lparr>m_keepalive := keepalive\<rparr>"

definition setCACert :: "string option \<Rightarrow> MqttClient \<Rightarrow> MqttClient" where
  "setCACert ca_cert s = (case ca_cert of None \<Rightarrow> s | Some c \<Rightarrow> s\<lparr>m_caCert := Some c\<rparr>)"

definition setClientCert :: "string option \<Rightarrow> MqttClient \<Rightarrow> MqttClient" where
  "setClientCert client_cert s =
     (case client_cert of None \<Rightarrow> s | Some c \<Rightarrow> s\<lparr>m_clientCert := Some c\<rparr>)"

definition setClientKey :: "string option \<Rightarrow> MqttClient \<Rightarrow> MqttClient" where
  "setClientKey client_key s =
     (case client_key of None \<Rightarrow> s | Some c \<Rightarrow> s\<lparr>m_clientKey := Some c\<rparr>)"

definition setInsecure :: "bool \<Rightarrow> MqttClient \<Rightarrow> MqttClient" where
  "setInsecure insecure s = s\<lparr>m_skipCertVerify := insecure\<rparr>"

definition setProtocolFallback :: "bool \<Rightarrow> MqttClient \<Rightarrow> MqttClient" where
  "setProtocolFallback enableFallback s = s\<lparr>m_enableFallback := enableFallback\<rparr>"

definition onMessage :: "callback option \<Rightarrow> MqttClient \<Rightarrow> MqttClient" where
  "onMessage cb s = s\<lparr>m_messageCallback := cb\<rparr>"

definition onConnect :: "callback option \<Rightarrow> MqttClient \<Rightarrow> MqttClient" where
  "onConnect cb s = s\<lparr>m_connectCallback := cb\<rparr>"

definition onDisconnect :: "callback option \<Rightarrow> MqttClient \<Rightarrow> MqttClient" where
  "onDisconnect cb s = s\<lparr>m_disconnectCallback := cb\<rparr>"

definition isConnected :: "MqttClient \<Rightarrow> bool" where
  "isConnected s = (m_connected s \<and> m_client s \<noteq> None)"

definition loop :: "MqttClient \<Rightarrow> MqttClient" where
  "loop s = s"

subsection \<open>Connecting\<close>

text \<open>
  \<^verbatim>\<open>buildUriIfNeeded\<close>: the previous URI is dropped; a new one is built when WebSocket is
  enabled or the stored path is a non-empty string.
\<close>

definition buildUriIfNeeded :: "MqttClient \<Rightarrow> MqttClient" where
  "buildUriIfNeeded s =
     (let s1 = s\<lparr>m_uri := None\<rparr>
      in if m_useWebSocket s1 \<or> (case m_path s1 of None \<Rightarrow> False | Some p \<Rightarrow> p \<noteq> [])
         then
           (let parts =
                  \<lparr>scheme = (if m_secure s1 then (if m_useWebSocket s1 then Wss else Mqtts)
                             else (if m_useWebSocket s1 then Ws else Mqtt)),
                   host = (case m_host s1 of None \<Rightarrow> [] | Some h \<Rightarrow> h),
                   port = unat (m_port s1),
                   path = (if m_useWebSocket s1
                           then (case m_path s1 of None \<Rightarrow> ''/'' | Some p \<Rightarrow> p)
                           else [])\<rparr>
            in s1\<lparr>m_uri := Some (buildMqttUri parts)\<rparr>)
         else s1)"

definition mqtt_cfg :: "int \<Rightarrow> MqttClient \<Rightarrow> esp_mqtt_client_config_t" where
  "mqtt_cfg protocol s =
     \<lparr>cfg_uri = m_uri s,
      cfg_hostname = (if m_uri s \<noteq> None then None else m_host s),
      cfg_port = (if m_uri s \<noteq> None then 0 else unat (m_port s)),
      cfg_certificate = m_caCert s,
      cfg_skip_cert_common_name_check = m_skipCertVerify s,
      cfg_client_id = m_clientId s,
      cfg_username = m_username s,
      cfg_password = m_password s,
      cfg_client_certificate = m_clientCert s,
      cfg_client_key = m_clientKey s,
      cfg_keepalive = unat (m_keepalive s),
      cfg_protocol_ver = protocol\<rparr>"

text \<open>
  \<^verbatim>\<open>connectWithProtocol\<close>: build the URI, stop and destroy an existing engine client,
  initialise a new one (null on failure: return false), register the event handler, start
  it; the result is whether the start returned \<^verbatim>\<open>ESP_OK\<close>.
\<close>

definition connectWithProtocol :: "engine \<Rightarrow> int \<Rightarrow> MqttClient \<Rightarrow> bool \<times> MqttClient" where
  "connectWithProtocol eng protocol s =
     (let s1 = buildUriIfNeeded s;
          cfg = mqtt_cfg protocol s1;
          s2 = (case m_client s1 of
                  None \<Rightarrow> s1
                | Some old \<Rightarrow> emit [Client_stop old, Client_destroy old] s1);
          c = esp_mqtt_client_init eng (trace s2) cfg;
          s3 = (emit [Client_init cfg c] s2)\<lparr>m_client := c\<rparr>
      in case c of
           None \<Rightarrow> (False, s3)
         | Some h \<Rightarrow>
             (let s4 = emit [Client_register_event h] s3;
                  result = esp_mqtt_client_start eng (trace s4) h;
                  s5 = emit [Client_start h result] s4
              in (result = ESP_OK, s5)))"

text \<open>
  A null pointer handed to \<^verbatim>\<open>strlen\<close> has no defined behaviour; the model makes it a fault
  of the call.
\<close>

datatype fault = Null_dereference

text \<open>
  \<^verbatim>\<open>MqttClient::connect\<close>. Its first statement takes \<^verbatim>\<open>strlen(clientId)\<close> and copies the
  identifier into \<^verbatim>\<open>_clientId\<close>; the test \<^verbatim>\<open>!clientId || strlen(clientId) == 0\<close> comes after
  it. Then protocol version 5 is tried, and version 4 if that fails and fallback is enabled.
\<close>

definition connect :: "engine \<Rightarrow> string option \<Rightarrow> MqttClient \<Rightarrow> fault + (bool \<times> MqttClient)" where
  "connect eng clientId s =
     (case clientId of
        None \<Rightarrow> Inl Null_dereference
      | Some cid \<Rightarrow>
          (let s1 = s\<lparr>m_clientId := Some cid\<rparr>
           in if cid = [] then Inr (False, s1)
              else
                (let (ok5, s2) = connectWithProtocol eng 5 s1
                 in if ok5 then Inr (True, s2\<lparr>m_usingFallback := False\<rparr>)
                    else if m_enableFallback s2
                    then (let (ok4, s3) = connectWithProtocol eng 4 s2
                          in if ok4 then Inr (True, s3\<lparr>m_usingFallback := True\<rparr>)
                             else Inr (False, s3))
                    else Inr (False, s2))))"

definition disconnect :: "MqttClient \<Rightarrow> MqttClient" where
  "disconnect s = (case m_client s of None \<Rightarrow> s | Some h \<Rightarrow> emit [Client_disconnect h] s)"

subsection \<open>Communication\<close>

text \<open>
  \<^verbatim>\<open>publish\<close>, \<^verbatim>\<open>subscribe\<close> and \<^verbatim>\<open>unsubscribe\<close> return -1 without an engine client, and
  the engine's message identifier otherwise. \<^verbatim>\<open>publish\<close> passes length 0 and QoS 1.
\<close>

definition publish :: "engine \<Rightarrow> string option \<Rightarrow> string option \<Rightarrow> bool \<Rightarrow> MqttClient \<Rightarrow> int \<times> MqttClient" where
  "publish eng topic payload retain s =
     (case m_client s of
        None \<Rightarrow> (- 1, s)
      | Some h \<Rightarrow>
          (let msg_id = esp_mqtt_client_publish eng (trace s) h topic payload
           in (msg_id, emit [Client_publish h topic payload 0 1 (if retain then 1 else 0) msg_id] s)))"

definition subscribe :: "engine \<Rightarrow> string option \<Rightarrow> int \<Rightarrow> MqttClient \<Rightarrow> int \<times> MqttClient" where
  "subscribe eng topic qos s =
     (case m_client s of
        None \<Rightarrow> (- 1, s)
      | Some h \<Rightarrow>
          (let msg_id = esp_mqtt_client_subscribe eng (trace s) h topic qos
           in (msg_id, emit [Client_subscribe h topic qos msg_id] s)))"

definition unsubscribe :: "engine \<Rightarrow> string option \<Rightarrow> MqttClient \<Rightarrow> int \<times> MqttClient" where
  "unsubscribe eng topic s =
     (case m_client s of
        None \<Rightarrow> (- 1, s)
      | Some h \<Rightarrow>
          (let msg_id = esp_mqtt_client_unsubscribe eng (trace s) h topic
           in (msg_id, emit [Client_unsubscribe h topic msg_id] s)))"

subsection \<open>Engine events\<close>

definition onConnectedInternal :: "MqttClient \<Rightarrow> MqttClient" where
  "onConnectedInternal s =
     (let s1 = s\<lparr>m_connected := True\<rparr>
      in case m_connectCallback s1 of None \<Rightarrow> s1 | Some cb \<Rightarrow> emit [Call_connect cb] s1)"

definition call_disconnectCallback :: "MqttClient \<Rightarrow> MqttClient" where
  "call_disconnectCallback s =
     (case m_disconnectCallback s of None \<Rightarrow> s | Some cb \<Rightarrow> emit [Call_disconnect cb] s)"

text \<open>
  \<^verbatim>\<open>reconnectWithFallback\<close>: after \<^verbatim>\<open>delay(1000)\<close>, one attempt with protocol version 4;
  the disconnect callback is invoked only if the attempt fails.
\<close>

definition reconnectWithFallback :: "engine \<Rightarrow> MqttClient \<Rightarrow> MqttClient" where
  "reconnectWithFallback eng s =
     (let (ok, s1) = connectWithProtocol eng 4 (emit [Delay 1000] s)
      in if ok then s1\<lparr>m_usingFallback := True\<rparr> else call_disconnectCallback s1)"

definition onDisconnectedInternal :: "engine \<Rightarrow> MqttClient \<Rightarrow> MqttClient" where
  "onDisconnectedInternal eng s =
     (let wasConnected = m_connected s;
          s1 = s\<lparr>m_connected := False\<rparr>
      in if wasConnected \<and> m_enableFallback s1 \<and> \<not> m_usingFallback s1
         then reconnectWithFallback eng s1
         else call_disconnectCallback s1)"

definition onDataInternal :: "char list \<Rightarrow> char list \<Rightarrow> int \<Rightarrow> MqttClient \<Rightarrow> MqttClient" where
  "onDataInternal topic data data_len s =
     (case m_messageCallback s of
        None \<Rightarrow> s
      | Some cb \<Rightarrow> emit [Call_message cb topic data data_len] s)"

text \<open>
  The error handle of an event (\<^verbatim>\<open>esp_mqtt_error_codes_t\<close>), with the fields the handler
  reads.
\<close>

record error_handle =
  error_type :: int
  esp_tls_last_esp_err :: int
  esp_transport_sock_errno :: int
  connect_return_code :: int

text \<open>
  The events of the engine, with the fields the handler reads. A data event carries the
  topic bytes and the payload bytes; \<^verbatim>\<open>topic_len\<close> and \<^verbatim>\<open>data_len\<close> are their lengths.
\<close>

datatype mqtt_event =
    MQTT_EVENT_CONNECTED int
  | MQTT_EVENT_DISCONNECTED "error_handle option"
  | MQTT_EVENT_SUBSCRIBED int
  | MQTT_EVENT_UNSUBSCRIBED int
  | MQTT_EVENT_PUBLISHED int
  | MQTT_EVENT_DATA "char list" "char list"
  | MQTT_EVENT_ERROR error_handle
  | MQTT_EVENT_OTHER int

text \<open>
  A local buffer \<^verbatim>\<open>char buf[n] = {0}\<close> after
  \<^verbatim>\<open>if (len < sizeof(buf)) memcpy(buf, bytes, len)\<close>.
\<close>

definition fill_buffer :: "nat \<Rightarrow> char list \<Rightarrow> char list" where
  "fill_buffer n bytes =
     (if length bytes < n then bytes @ replicate (n - length bytes) (CHR 0x00)
      else replicate n (CHR 0x00))"

text \<open>
  \<^verbatim>\<open>mqtt_event_handler\<close>. Only the connected, disconnected and data events reach the client;
  the others print diagnostics.
\<close>

fun mqtt_event_handler :: "engine \<Rightarrow> mqtt_event \<Rightarrow> MqttClient \<Rightarrow> MqttClient" where
  "mqtt_event_handler eng (MQTT_EVENT_CONNECTED session_present) s = onConnectedInternal s"
| "mqtt_event_handler eng (MQTT_EVENT_DISCONNECTED eh) s = onDisconnectedInternal eng s"
| "mqtt_event_handler eng (MQTT_EVENT_SUBSCRIBED msg_id) s = s"
| "mqtt_event_handler eng (MQTT_EVENT_UNSUBSCRIBED msg_id) s = s"
| "mqtt_event_handler eng (MQTT_EVENT_PUBLISHED msg_id) s = s"
| "mqtt_event_handler eng (MQTT_EVENT_DATA topic data) s =
     onDataInternal (fill_buffer 256 topic) (fill_buffer 512 data) (int (length data)) s"
| "mqtt_event_handler eng (MQTT_EVENT_ERROR eh) s = s"
| "mqtt_event_handler eng (MQTT_EVENT_OTHER event_id) s = s"

section \<open>Sequences of calls and events\<close>

text \<open>
  The engine delivers its events one after the other; \<open>handle_events\<close> runs the handler
  over a list of them.
\<close>

definition handle_events :: "engine \<Rightarrow> mqtt_event list \<Rightarrow> MqttClient \<Rightarrow> MqttClient" where
  "handle_events eng evs s = foldl (\<lambda>st ev. mqtt_event_handler eng ev st) s evs"

text \<open>
  A step of a client in use is a call of \<^verbatim>\<open>connect\<close> with a client identifier (not a null
  pointer) or an event of the engine.
\<close>

datatype step = Connect string | Event mqtt_event

fun run_step :: "engine \<Rightarrow> MqttClient \<Rightarrow> step \<Rightarrow> MqttClient" where
  "run_step eng s (Connect clientId) =
     (case connect eng (Some clientId) s of Inl f \<Rightarrow> s | Inr (r, s') \<Rightarrow> s')"
| "run_step eng s (Event ev) = mqtt_event_handler eng ev s"

declare run_step.simps [simp del]

definition run :: "engine \<Rightarrow> step list \<Rightarrow> MqttClient \<Rightarrow> MqttClient" where
  "run eng steps s = foldl (run_step eng) s steps"

text \<open>The steps that set \<^verbatim>\<open>_connected\<close>: the connected events of the engine.\<close>

fun is_connected_event :: "step \<Rightarrow> bool" where
  "is_connected_event (Event (MQTT_EVENT_CONNECTED session_present)) = True"
| "is_connected_event st = False"

text \<open>The result of \<^verbatim>\<open>connect\<close> for a client identifier that is not a null pointer.\<close>

definition connect_ok :: "engine \<Rightarrow> string \<Rightarrow> MqttClient \<Rightarrow> bool" where
  "connect_ok eng cid s = (case connect eng (Some cid) s of Inl f \<Rightarrow> False | Inr (r, s') \<Rightarrow> r)"

text \<open>
  The calls that configure a client or that need no engine answer: every public member
  function except \<^verbatim>\<open>connect\<close>, \<^verbatim>\<open>publish\<close>, \<^verbatim>\<open>subscribe\<close>, \<^verbatim>\<open>unsubscribe\<close> and
  \<^verbatim>\<open>isConnected\<close>.
\<close>

datatype config_call =
    Begin string
  | SetServer string "16 word"
  | SetWebSocket bool
  | SetPath "string option"
  | SetCredentials "string option" "string option"
  | SetKeepalive "16 word"
  | SetCACert "string option"
  | SetClientCert "string option"
  | SetClientKey "string option"
  | SetInsecure bool
  | SetProtocolFallback bool
  | OnMessage "callback option"
  | OnConnect "callback option"
  | OnDisconnect "callback option"
  | Disconnect
  | Loop

fun configure :: "MqttClient \<Rightarrow> config_call \<Rightarrow> MqttClient" where
  "configure s (Begin uri) = begin_client uri s"
| "configure s (SetServer h p) = setServer h p s"
| "configure s (SetWebSocket b) = setWebSocket b s"
| "configure s (SetPath p) = setPath p s"
| "configure s (SetCredentials u p) = setCredentials u p s"
| "configure s (SetKeepalive k) = setKeepalive k s"
| "configure s (SetCACert c) = setCACert c s"
| "configure s (SetClientCert c) = setClientCert c s"
| "configure s (SetClientKey c) = setClientKey c s"
| "configure s (SetInsecure b) = setInsecure b s"
| "configure s (SetProtocolFallback b) = setProtocolFallback b s"
| "configure s (OnMessage cb) = onMessage cb s"
| "configure s (OnConnect cb) = onConnect cb s"
| "configure s (OnDisconnect cb) = onDisconnect cb s"
| "configure s Disconnect = disconnect s"
| "configure s Loop = loop s"

section \<open>Reading a trace\<close>

text \<open>The actions a piece of code added to the trace: those of \<open>s'\<close> after those of \<open>s\<close>.\<close>

definition new_actions :: "MqttClient \<Rightarrow> MqttClient \<Rightarrow> action list" where
  "new_actions s s' = drop (length (trace s)) (trace s')"

fun is_callback :: "action \<Rightarrow> bool" where
  "is_callback (Call_connect cb) = True"
| "is_callback (Call_disconnect cb) = True"
| "is_callback (Call_message cb t d n) = True"
| "is_callback a = False"

fun is_client_init :: "action \<Rightarrow> bool" where
  "is_client_init (Client_init cfg c) = True"
| "is_client_init a = False"

text \<open>An attempt with the legacy protocol: the engine is initialised for version 4.\<close>

fun is_legacy_init :: "action \<Rightarrow> bool" where
  "is_legacy_init (Client_init cfg c) = (cfg_protocol_ver cfg = 4)"
| "is_legacy_init a = False"

fun is_started_ok :: "action \<Rightarrow> bool" where
  "is_started_ok (Client_start h r) = (r = ESP_OK)"
| "is_started_ok a = False"

text \<open>
  The fallback hops of a trace: the starts that returned \<^verbatim>\<open>ESP_OK\<close> for an engine client
  initialised for version 4. The first argument is the protocol version of the engine
  client that exists when the trace begins.
\<close>

fun legacy_hops :: "int \<Rightarrow> action list \<Rightarrow> nat" where
  "legacy_hops p [] = 0"
| "legacy_hops p (Client_init cfg c # as) = legacy_hops (cfg_protocol_ver cfg) as"
| "legacy_hops p (Client_start h r # as) = (if p = 4 \<and> r = ESP_OK then 1 else 0) + legacy_hops p as"
| "legacy_hops p (a # as) = legacy_hops p as"

fun last_protocol :: "int \<Rightarrow> action list \<Rightarrow> int" where
  "last_protocol p [] = p"
| "last_protocol p (Client_init cfg c # as) = last_protocol (cfg_protocol_ver cfg) as"
| "last_protocol p (a # as) = last_protocol p as"

text \<open>A buffer read as a C string: the bytes before the first NUL.\<close>

definition c_str :: "char list \<Rightarrow> string" where
  "c_str buf = takeWhile (\<lambda>c. c \<noteq> CHR 0x00) buf"

text \<open>Names for the parts of a trace, used in the proofs.\<close>

definition attempt_actions :: "engine \<Rightarrow> int \<Rightarrow> MqttClient \<Rightarrow> action list" where
  "attempt_actions eng p s = new_actions s (snd (connectWithProtocol eng p s))"

definition stop_actions :: "MqttClient \<Rightarrow> action list" where
  "stop_actions s = (case m_client s of None \<Rightarrow> [] | Some old \<Rightarrow> [Client_stop old, Client_destroy old])"

definition event_actions :: "engine \<Rightarrow> mqtt_event \<Rightarrow> MqttClient \<Rightarrow> action list" where
  "event_actions eng ev s = new_actions s (mqtt_event_handler eng ev s)"

definition connect_actions :: "engine \<Rightarrow> string \<Rightarrow> MqttClient \<Rightarrow> action list" where
  "connect_actions eng cid s = new_actions s (run_step eng s (Connect cid))"

definition step_actions :: "engine \<Rightarrow> step \<Rightarrow> MqttClient \<Rightarrow> action list" where
  "step_actions eng st s = new_actions s (run_step eng s st)"

text \<open>
  The test of \<^verbatim>\<open>onDisconnectedInternal\<close> for a fallback reconnection, and the state in
  which \<^verbatim>\<open>reconnectWithFallback\<close> makes its attempt.
\<close>

definition fallback_due :: "MqttClient \<Rightarrow> bool" where
  "fallback_due s = (m_connected s \<and> m_enableFallback s \<and> \<not> m_usingFallback s)"

definition before_attempt :: "MqttClient \<Rightarrow> MqttClient" where
  "before_attempt s = emit [Delay 1000] (s\<lparr>m_connected := False\<rparr>)"

text \<open>
  Modelled from the spec: the host that \<open>Parse\<close> reads from the text after the separator
  (UriUtils.h is missing); a name for a subterm of \<open>parseMqttUri\<close>.
\<close>

definition host_of_rest :: "string \<Rightarrow> string" where
  "host_of_rest rest =
     takeWhile (\<lambda>c. c \<noteq> CHR '':'') (strip_credentials (takeWhile (\<lambda>c. c \<noteq> CHR ''/'') rest))"

section \<open>Sample engines and clients\<close>

text \<open>
  Three engines: one that accepts everything, one that cannot be initialised for protocol
  version 5, and one that cannot be initialised at all.
\<close>

definition engine_ok :: engine where
  "engine_ok =
     \<lparr>esp_mqtt_client_init = (\<lambda>tr cfg. Some 1),
      esp_mqtt_client_start = (\<lambda>tr h. ESP_OK),
      esp_mqtt_client_publish = (\<lambda>tr h topic payload. 1),
      esp_mqtt_client_subscribe = (\<lambda>tr h topic qos. 1),
      esp_mqtt_client_unsubscribe = (\<lambda>tr h topic. 1)\<rparr>"

definition engine_legacy_only :: engine where
  "engine_legacy_only =
     engine_ok\<lparr>esp_mqtt_client_init := (\<lambda>tr cfg. if cfg_protocol_ver cfg = 5 then None else Some 1)\<rparr>"

definition engine_down :: engine where
  "engine_down = engine_ok\<lparr>esp_mqtt_client_init := (\<lambda>tr cfg. None)\<rparr>"

text \<open>
  The client of \<^verbatim>\<open>examples/mtls_example/main.cpp\<close> before it connects (without its
  credentials and certificates), the same client with a session over protocol version 5,
  and with a session over version 4.
\<close>

definition app_client :: MqttClient where
  "app_client =
     setProtocolFallback True
       (begin_client ''mqtts://broker.example.com:8883''
          (onDisconnect (Some 3) (onConnect (Some 2) (onMessage (Some 1) MqttClient_new))))"

definition connected_client :: MqttClient where
  "connected_client =
     run engine_ok [Connect ''esp32_mtls_client'', Event (MQTT_EVENT_CONNECTED 0)] app_client"

definition legacy_client :: MqttClient where
  "legacy_client =
     run engine_legacy_only [Connect ''esp32_mtls_client'', Event (MQTT_EVENT_CONNECTED 0)] app_client"

definition tcp_error :: error_handle where
  "tcp_error =
     \<lparr>error_type = 1, esp_tls_last_esp_err = 0, esp_transport_sock_errno = 104,
      connect_return_code = 0\<rparr>"

section \<open>Lemmas\<close>

lemma digit_value_char: "d < 10 \<Longrightarrow> digit_value (digit_char d) = d"
  by (simp add: digit_value_def digit_char_def)

lemma is_digit_char: "d < 10 \<Longrightarrow> is_digit (digit_char d)"
  by (simp add: is_digit_def digit_char_def)

lemma show_decimal_digits: "list_all is_digit (show_decimal n)"
  by (induction n rule: show_decimal.induct) (subst show_decimal.simps, simp add: is_digit_char)

lemma show_decimal_nonempty: "show_decimal n \<noteq> []"
  by (subst show_decimal.simps) simp

lemma parse_show_decimal: "parse_decimal (show_decimal n) = n"
proof (induction n rule: show_decimal.induct)
  case (1 n)
  show ?case
  proof (cases "n < 10")
    case True
    then show ?thesis
      by (subst show_decimal.simps) (simp add: parse_decimal_def digit_value_char)
  next
    case False
    with 1 have "parse_decimal (show_decimal (n div 10)) = n div 10" by simp
    with False show ?thesis
      by (subst show_decimal.simps) (simp add: parse_decimal_def digit_value_char)
  qed
qed

lemma parse_port_show: "1 \<le> n \<Longrightarrow> n \<le> 65535 \<Longrightarrow> parse_port (show_decimal n) = Some n"
  by (simp add: parse_port_def show_decimal_digits show_decimal_nonempty parse_show_decimal)

lemma is_digit_not_delim: "is_digit c \<Longrightarrow> c \<noteq> CHR ''/'' \<and> c \<noteq> CHR ''@'' \<and> c \<noteq> CHR '':''"
  by (auto simp: is_digit_def)

lemma split_separator_scheme_text:
  "split_separator (scheme_text sc @ ''://'' @ rest) = Some (scheme_text sc, rest)"
  by (cases sc) (simp_all add: scheme_text_def)

lemma scheme_of_scheme_text: "scheme_of_text (scheme_text sc) = Some sc"
  by (cases sc) (simp_all add: scheme_text_def scheme_of_text_def to_lower_def)

lemma strip_credentials_none: "CHR ''@'' \<notin> set a \<Longrightarrow> strip_credentials a = a"
proof -
  assume "CHR ''@'' \<notin> set a"
  then have "takeWhile (\<lambda>c. c \<noteq> CHR ''@'') (rev a) = rev a"
    by (auto simp: takeWhile_eq_all_conv)
  then show ?thesis unfolding strip_credentials_def by (simp only: rev_rev_ident)
qed

lemma strip_credentials_free: "CHR ''@'' \<notin> set (strip_credentials a)"
  by (auto simp: strip_credentials_def dest: set_takeWhileD)

lemma strip_credentials_subset: "set (strip_credentials a) \<subseteq> set a"
  by (auto simp: strip_credentials_def dest: set_takeWhileD)

lemma parse_port_range: "parse_port t = Some n \<Longrightarrow> 1 \<le> n \<and> n \<le> 65535"
  by (auto simp: parse_port_def split: if_splits)

lemma default_port_range: "1 \<le> default_port sc \<and> default_port sc \<le> 65535"
  by (cases sc) (simp_all add: default_port_def)

lemma host_of_rest_free:
  "CHR ''/'' \<notin> set (host_of_rest rest)" "CHR ''@'' \<notin> set (host_of_rest rest)"
  "CHR '':'' \<notin> set (host_of_rest rest)"
proof -
  have a: "set (host_of_rest rest) \<subseteq> set (strip_credentials (takeWhile (\<lambda>c. c \<noteq> CHR ''/'') rest))"
    by (auto simp: host_of_rest_def dest: set_takeWhileD)
  also have "\<dots> \<subseteq> set (takeWhile (\<lambda>c. c \<noteq> CHR ''/'') rest)"
    by (rule strip_credentials_subset)
  finally show "CHR ''/'' \<notin> set (host_of_rest rest)"
    by (auto dest: set_takeWhileD)
  from a show "CHR ''@'' \<notin> set (host_of_rest rest)"
    using strip_credentials_free by blast
  show "CHR '':'' \<notin> set (host_of_rest rest)"
    by (auto simp: host_of_rest_def dest: set_takeWhileD)
qed

lemma parseMqttUri_SomeD:
  assumes "parseMqttUri x = Some p"
  shows "host p \<noteq> []" and "CHR ''/'' \<notin> set (host p)" and "CHR ''@'' \<notin> set (host p)"
    and "CHR '':'' \<notin> set (host p)" and "1 \<le> port p" and "port p \<le> 65535"
    and "path p \<noteq> []" and "hd (path p) = CHR ''/''"
proof -
  from assms obtain st rest where sp: "split_separator x = Some (st, rest)"
    by (cases "split_separator x") (auto simp: parseMqttUri_def)
  from assms sp obtain sc where st: "scheme_of_text st = Some sc"
    by (cases "scheme_of_text st") (auto simp: parseMqttUri_def)
  define pt where "pt = dropWhile (\<lambda>c. c \<noteq> CHR '':'') (strip_credentials (takeWhile (\<lambda>c. c \<noteq> CHR ''/'') rest))"
  define pn where "pn = (if pt = [] then Some (default_port sc) else parse_port (tl pt))"
  define pa where "pa = (if dropWhile (\<lambda>c. c \<noteq> CHR ''/'') rest = [] then ''/'' else dropWhile (\<lambda>c. c \<noteq> CHR ''/'') rest)"
  have eq: "parseMqttUri x = (if host_of_rest rest = [] then None
       else (case pn of None \<Rightarrow> None | Some n \<Rightarrow> Some \<lparr>scheme = sc, host = host_of_rest rest, port = n, path = pa\<rparr>))"
    unfolding parseMqttUri_def pn_def pt_def pa_def host_of_rest_def
    by (simp only: sp st option.case prod.case Let_def)
  from eq assms have h: "host_of_rest rest \<noteq> []"
    by (cases "host_of_rest rest = []") simp_all
  with eq assms obtain n where pn: "pn = Some n"
    and p: "p = \<lparr>scheme = sc, host = host_of_rest rest, port = n, path = pa\<rparr>"
    by (cases pn) simp_all
  from pn have n: "n = default_port sc \<or> (\<exists>t. parse_port t = Some n)"
    by (cases "pt = []") (auto simp: pn_def)
  from p h show "host p \<noteq> []" by simp
  from p show "CHR ''/'' \<notin> set (host p)" "CHR ''@'' \<notin> set (host p)" "CHR '':'' \<notin> set (host p)"
    using host_of_rest_free [of rest] by simp_all
  from n p show "1 \<le> port p" "port p \<le> 65535"
    using default_port_range [of sc] parse_port_range by auto
  from p show "path p \<noteq> []" by (simp add: pa_def)
  from p show "hd (path p) = CHR ''/''"
    using hd_dropWhile [of "\<lambda>c. c \<noteq> CHR ''/''" rest] by (auto simp: pa_def)
qed

lemma takeWhile_prefix_exact:
  assumes "\<forall>x \<in> set xs. P x" and "ys = [] \<or> \<not> P (hd ys)"
  shows "takeWhile P (xs @ ys) = xs" and "dropWhile P (xs @ ys) = ys"
  using assms by (cases ys; simp add: takeWhile_append2 dropWhile_append2)+

lemma parse_build:
  assumes h: "host p \<noteq> []" "CHR ''/'' \<notin> set (host p)" "CHR ''@'' \<notin> set (host p)"
     "CHR '':'' \<notin> set (host p)" and pt: "1 \<le> port p" "port p \<le> 65535"
     and pa: "path p = [] \<or> hd (path p) = CHR ''/''"
  shows "parseMqttUri (buildMqttUri p) =
     Some (p\<lparr>path := (if isWebSocket p \<and> path p \<noteq> [] then path p else ''/'')\<rparr>)"
proof -
  define portpart where "portpart = (if port p = default_port (scheme p) then [] else '':'' @ show_decimal (port p))"
  define pathpart where "pathpart = (if isWebSocket p \<and> path p \<noteq> [] then path p else [])"
  have b: "buildMqttUri p = scheme_text (scheme p) @ ''://'' @ ((host p @ portpart) @ pathpart)"
    by (simp add: buildMqttUri_def portpart_def pathpart_def)
  have digits: "\<forall>c \<in> set (show_decimal (port p)). is_digit c"
    using show_decimal_digits [of "port p"] by (simp add: list_all_iff)
  have auth_free: "\<forall>c \<in> set (host p @ portpart). c \<noteq> CHR ''/''"
    using h digits is_digit_not_delim by (auto simp: portpart_def)
  have pathpart_hd: "pathpart = [] \<or> \<not> (hd pathpart \<noteq> CHR ''/'')"
    using pa by (auto simp: pathpart_def)
  have tw: "takeWhile (\<lambda>c. c \<noteq> CHR ''/'') ((host p @ portpart) @ pathpart) = host p @ portpart"
    and dw: "dropWhile (\<lambda>c. c \<noteq> CHR ''/'') ((host p @ portpart) @ pathpart) = pathpart"
    using takeWhile_prefix_exact [OF auth_free pathpart_hd] by simp_all
  have "CHR ''@'' \<notin> set (host p @ portpart)"
    using h digits is_digit_not_delim by (auto simp: portpart_def)
  then have sc: "strip_credentials (host p @ portpart) = host p @ portpart"
    by (rule strip_credentials_none)
  have host_free: "\<forall>c \<in> set (host p). c \<noteq> CHR '':''" using h by auto
  have portpart_hd: "portpart = [] \<or> \<not> (hd portpart \<noteq> CHR '':'')"
    by (simp add: portpart_def)
  have th: "takeWhile (\<lambda>c. c \<noteq> CHR '':'') (host p @ portpart) = host p"
    and dh: "dropWhile (\<lambda>c. c \<noteq> CHR '':'') (host p @ portpart) = portpart"
    using takeWhile_prefix_exact [OF host_free portpart_hd] by simp_all
  have pp: "(if portpart = [] then Some (default_port (scheme p)) else parse_port (tl portpart)) = Some (port p)"
    using pt by (simp add: portpart_def parse_port_show)
  have "parseMqttUri (buildMqttUri p) =
      Some \<lparr>scheme = scheme p, host = host p, port = port p,
            path = (if pathpart = [] then ''/'' else pathpart)\<rparr>"
    unfolding parseMqttUri_def b split_separator_scheme_text
    by (simp only: option.case prod.case scheme_of_scheme_text Let_def tw dw sc th dh pp h if_False)
  then show ?thesis
    by (simp add: pathpart_def)
qed

lemma buildUriIfNeeded_fields [simp]:
  "trace (buildUriIfNeeded s) = trace s"
  "m_client (buildUriIfNeeded s) = m_client s"
  "m_connected (buildUriIfNeeded s) = m_connected s"
  "m_enableFallback (buildUriIfNeeded s) = m_enableFallback s"
  "m_usingFallback (buildUriIfNeeded s) = m_usingFallback s"
  "m_disconnectCallback (buildUriIfNeeded s) = m_disconnectCallback s"
  "m_connectCallback (buildUriIfNeeded s) = m_connectCallback s"
  "m_messageCallback (buildUriIfNeeded s) = m_messageCallback s"
  by (simp_all add: buildUriIfNeeded_def Let_def)

lemma cwp_init_fails:
  assumes "esp_mqtt_client_init eng (trace s @ stop_actions s) (mqtt_cfg p (buildUriIfNeeded s)) = None"
  shows "connectWithProtocol eng p s =
     (False, (buildUriIfNeeded s)\<lparr>trace := trace s @ stop_actions s @ [Client_init (mqtt_cfg p (buildUriIfNeeded s)) None],
                                  m_client := None\<rparr>)"
proof (cases "m_client s")
  case None
  with assms show ?thesis
    by (simp add: connectWithProtocol_def stop_actions_def emit_def Let_def)
next
  case (Some old)
  with assms show ?thesis
    by (simp add: connectWithProtocol_def stop_actions_def emit_def Let_def)
qed

lemma cwp_init_ok:
  assumes "esp_mqtt_client_init eng (trace s @ stop_actions s) (mqtt_cfg p (buildUriIfNeeded s)) = Some h"
  shows "connectWithProtocol eng p s =
     (let pre = stop_actions s @ [Client_init (mqtt_cfg p (buildUriIfNeeded s)) (Some h), Client_register_event h];
          r = esp_mqtt_client_start eng (trace s @ pre) h
      in (r = ESP_OK, (buildUriIfNeeded s)\<lparr>trace := trace s @ pre @ [Client_start h r], m_client := Some h\<rparr>))"
proof (cases "m_client s")
  case None
  with assms show ?thesis
    by (simp add: connectWithProtocol_def stop_actions_def emit_def Let_def)
next
  case (Some old)
  with assms show ?thesis
    by (simp add: connectWithProtocol_def stop_actions_def emit_def Let_def)
qed

lemma stop_actions_plain [simp]:
  "\<not> list_ex is_callback (stop_actions s)" "\<not> list_ex is_started_ok (stop_actions s)"
  "filter is_client_init (stop_actions s) = []"
  "filter is_legacy_init (stop_actions s) = []"
  "legacy_hops q (stop_actions s @ as) = legacy_hops q as"
  "last_protocol q (stop_actions s @ as) = last_protocol q as"
  by (simp_all add: stop_actions_def split: option.splits)

lemma cwp_cases:
  obtains (init_fails) cfg where
      "connectWithProtocol eng p s =
         (False, (buildUriIfNeeded s)\<lparr>trace := trace s @ stop_actions s @ [Client_init cfg None], m_client := None\<rparr>)"
      "cfg_protocol_ver cfg = p"
    | (started) cfg h r where
      "connectWithProtocol eng p s =
         (r = ESP_OK, (buildUriIfNeeded s)\<lparr>trace := trace s @ stop_actions s @
              [Client_init cfg (Some h), Client_register_event h, Client_start h r], m_client := Some h\<rparr>)"
      "cfg_protocol_ver cfg = p"
proof (cases "esp_mqtt_client_init eng (trace s @ stop_actions s) (mqtt_cfg p (buildUriIfNeeded s))")
  case None
  show ?thesis
  proof (rule init_fails)
    show "connectWithProtocol eng p s =
       (False, (buildUriIfNeeded s)\<lparr>trace := trace s @ stop_actions s @ [Client_init (mqtt_cfg p (buildUriIfNeeded s)) None], m_client := None\<rparr>)"
      by (rule cwp_init_fails [OF None])
    show "cfg_protocol_ver (mqtt_cfg p (buildUriIfNeeded s)) = p"
      by (simp add: mqtt_cfg_def)
  qed
next
  case (Some h)
  define r where "r = esp_mqtt_client_start eng (trace s @ stop_actions s @
      [Client_init (mqtt_cfg p (buildUriIfNeeded s)) (Some h), Client_register_event h]) h"
  show ?thesis
  proof (rule started)
    show "connectWithProtocol eng p s =
       (r = ESP_OK, (buildUriIfNeeded s)\<lparr>trace := trace s @ stop_actions s @
            [Client_init (mqtt_cfg p (buildUriIfNeeded s)) (Some h), Client_register_event h, Client_start h r],
          m_client := Some h\<rparr>)"
      using cwp_init_ok [OF Some] by (simp add: Let_def r_def)
    show "cfg_protocol_ver (mqtt_cfg p (buildUriIfNeeded s)) = p"
      by (simp add: mqtt_cfg_def)
  qed
qed

lemma cwp_fields [simp]:
  "m_connected (snd (connectWithProtocol eng p s)) = m_connected s"
  "m_enableFallback (snd (connectWithProtocol eng p s)) = m_enableFallback s"
  "m_usingFallback (snd (connectWithProtocol eng p s)) = m_usingFallback s"
  "m_disconnectCallback (snd (connectWithProtocol eng p s)) = m_disconnectCallback s"
  "m_connectCallback (snd (connectWithProtocol eng p s)) = m_connectCallback s"
  "m_messageCallback (snd (connectWithProtocol eng p s)) = m_messageCallback s"
  by (cases rule: cwp_cases [of eng p s]; simp)+

lemma cwp_trace:
  "trace (snd (connectWithProtocol eng p s)) = trace s @ attempt_actions eng p s"
  unfolding attempt_actions_def new_actions_def
  by (cases rule: cwp_cases [of eng p s]) simp_all

lemma attempt_no_callback: "\<not> list_ex is_callback (attempt_actions eng p s)"
  unfolding attempt_actions_def new_actions_def
  by (cases rule: cwp_cases [of eng p s]) simp_all

lemma attempt_started: "fst (connectWithProtocol eng p s) = list_ex is_started_ok (attempt_actions eng p s)"
  unfolding attempt_actions_def new_actions_def
  by (cases rule: cwp_cases [of eng p s]) simp_all

lemma attempt_inits: "length (filter is_client_init (attempt_actions eng p s)) = 1"
  unfolding attempt_actions_def new_actions_def
  by (cases rule: cwp_cases [of eng p s]) simp_all

lemma attempt_legacy_inits: "length (filter is_legacy_init (attempt_actions eng p s)) = (if p = 4 then 1 else 0)"
  unfolding attempt_actions_def new_actions_def
  by (cases rule: cwp_cases [of eng p s]) simp_all

lemma attempt_hops: "legacy_hops q (attempt_actions eng p s) = (if fst (connectWithProtocol eng p s) \<and> p = 4 then 1 else 0)"
  unfolding attempt_actions_def new_actions_def
  by (cases rule: cwp_cases [of eng p s]) simp_all

lemma attempt_last_protocol: "last_protocol q (attempt_actions eng p s) = p"
  unfolding attempt_actions_def new_actions_def
  by (cases rule: cwp_cases [of eng p s]) simp_all

lemma new_actions_append [simp]: "new_actions s (s'\<lparr>trace := trace s @ acts\<rparr>) = acts"
  by (simp add: new_actions_def)

lemma new_actionsI: "trace s' = trace s @ acts \<Longrightarrow> new_actions s s' = acts"
  by (simp add: new_actions_def)

lemma call_disconnectCallback_trace:
  "trace (call_disconnectCallback s) =
     trace s @ (case m_disconnectCallback s of None \<Rightarrow> [] | Some cb \<Rightarrow> [Call_disconnect cb])"
  by (simp add: call_disconnectCallback_def emit_def split: option.splits)

lemma call_disconnectCallback_fields [simp]:
  "m_connected (call_disconnectCallback s) = m_connected s"
  "m_enableFallback (call_disconnectCallback s) = m_enableFallback s"
  "m_usingFallback (call_disconnectCallback s) = m_usingFallback s"
  "m_disconnectCallback (call_disconnectCallback s) = m_disconnectCallback s"
  by (simp_all add: call_disconnectCallback_def emit_def split: option.splits)

lemma odi_no_fallback:
  assumes "\<not> fallback_due s"
  shows "onDisconnectedInternal eng s = call_disconnectCallback (s\<lparr>m_connected := False\<rparr>)"
  using assms by (auto simp: onDisconnectedInternal_def fallback_due_def Let_def)

lemma odi_fallback:
  assumes "fallback_due s"
  shows "onDisconnectedInternal eng s =
     (if fst (connectWithProtocol eng 4 (before_attempt s))
      then (snd (connectWithProtocol eng 4 (before_attempt s)))\<lparr>m_usingFallback := True\<rparr>
      else call_disconnectCallback (snd (connectWithProtocol eng 4 (before_attempt s))))"
  using assms
  by (simp add: onDisconnectedInternal_def fallback_due_def Let_def reconnectWithFallback_def
      before_attempt_def split_beta)

lemma odi_trace:
  "trace (onDisconnectedInternal eng s) = trace s @
     (if fallback_due s
      then Delay 1000 # attempt_actions eng 4 (before_attempt s) @
             (if fst (connectWithProtocol eng 4 (before_attempt s)) then []
              else (case m_disconnectCallback s of None \<Rightarrow> [] | Some cb \<Rightarrow> [Call_disconnect cb]))
      else (case m_disconnectCallback s of None \<Rightarrow> [] | Some cb \<Rightarrow> [Call_disconnect cb]))"
proof (cases "fallback_due s")
  case False
  then show ?thesis
    by (simp add: odi_no_fallback call_disconnectCallback_trace)
next
  case True
  have b: "trace (before_attempt s) = trace s @ [Delay 1000]"
    "m_disconnectCallback (before_attempt s) = m_disconnectCallback s"
    by (simp_all add: before_attempt_def emit_def)
  from True show ?thesis
    by (simp add: odi_fallback call_disconnectCallback_trace cwp_trace b)
qed

lemma odi_fields [simp]:
  "m_enableFallback (onDisconnectedInternal eng s) = m_enableFallback s"
  "m_disconnectCallback (onDisconnectedInternal eng s) = m_disconnectCallback s"
  "m_connected (onDisconnectedInternal eng s) = False"
  by (cases "fallback_due s"; simp add: odi_fallback odi_no_fallback before_attempt_def emit_def)+

lemma odi_usingFallback:
  "m_usingFallback (onDisconnectedInternal eng s) =
     (m_usingFallback s \<or> fallback_due s \<and> fst (connectWithProtocol eng 4 (before_attempt s)))"
  by (cases "fallback_due s"; simp add: odi_fallback odi_no_fallback before_attempt_def emit_def)

lemma list_ex_append_attempt [simp]:
  "list_ex is_callback (attempt_actions eng p s) = False"
  using attempt_no_callback by simp

lemma attempt_has_init: "list_ex is_client_init (attempt_actions eng p s)"
proof -
  have "filter is_client_init (attempt_actions eng p s) \<noteq> []"
    using attempt_inits [of eng p s] by auto
  then show ?thesis by (simp add: filter_empty_conv list_ex_iff)
qed

lemma attempt_has_legacy_init: "list_ex is_legacy_init (attempt_actions eng 4 s)"
proof -
  have "filter is_legacy_init (attempt_actions eng 4 s) \<noteq> []"
    using attempt_legacy_inits [of eng 4 s] by auto
  then show ?thesis by (simp add: filter_empty_conv list_ex_iff)
qed

lemma filter_callback_attempt [simp]: "filter is_callback (attempt_actions eng p s) = []"
  using attempt_no_callback [of eng p s] by (simp add: filter_empty_conv list_ex_iff)

lemma legacy_hops_append:
  "legacy_hops q (xs @ ys) = legacy_hops q xs + legacy_hops (last_protocol q xs) ys"
  by (induction q xs rule: legacy_hops.induct) simp_all

lemma legacy_hops_callbacks: "list_all is_callback xs \<Longrightarrow> legacy_hops q xs = 0 \<and> last_protocol q xs = q"
  by (induction q xs rule: legacy_hops.induct) simp_all

lemma callbacks_no_init: "list_all is_callback xs \<Longrightarrow> \<not> list_ex is_client_init xs \<and> \<not> list_ex is_legacy_init xs"
  by (induction xs) (auto elim: is_callback.elims)

lemma new_actions_eq: "trace s' = trace s @ acts \<Longrightarrow> trace s' = trace s @ new_actions s s'"
  by (simp add: new_actions_def)

lemma onConnectedInternal_trace:
  "trace (onConnectedInternal s) =
     trace s @ (case m_connectCallback s of None \<Rightarrow> [] | Some cb \<Rightarrow> [Call_connect cb])"
  by (simp add: onConnectedInternal_def Let_def emit_def split: option.splits)

lemma onConnectedInternal_fields [simp]:
  "m_usingFallback (onConnectedInternal s) = m_usingFallback s"
  "m_enableFallback (onConnectedInternal s) = m_enableFallback s"
  by (simp_all add: onConnectedInternal_def Let_def emit_def split: option.splits)

lemma onConnectedInternal_quiet: "list_all is_callback (new_actions s (onConnectedInternal s))"
  by (simp add: new_actions_def onConnectedInternal_trace split: option.splits)

lemma onDataInternal_trace:
  "trace (onDataInternal t d n s) =
     trace s @ (case m_messageCallback s of None \<Rightarrow> [] | Some cb \<Rightarrow> [Call_message cb t d n])"
  by (simp add: onDataInternal_def emit_def split: option.splits)

lemma onDataInternal_fields [simp]:
  "m_usingFallback (onDataInternal t d n s) = m_usingFallback s"
  "m_enableFallback (onDataInternal t d n s) = m_enableFallback s"
  by (simp_all add: onDataInternal_def emit_def split: option.splits)

lemma onDataInternal_quiet: "list_all is_callback (new_actions s (onDataInternal t d n s))"
  by (simp add: new_actions_def onDataInternal_trace split: option.splits)

lemma odi_new_actions:
  "trace (onDisconnectedInternal eng s) = trace s @ new_actions s (onDisconnectedInternal eng s)"
  by (rule new_actions_eq) (rule odi_trace)

lemma odi_quiet:
  assumes "\<not> fallback_due s"
  shows "list_all is_callback (new_actions s (onDisconnectedInternal eng s))"
  using assms by (simp add: new_actions_def odi_trace split: option.splits)

lemma odi_hops:
  "legacy_hops q (new_actions s (onDisconnectedInternal eng s)) =
     (if \<not> m_usingFallback s \<and> m_usingFallback (onDisconnectedInternal eng s) then 1 else 0)"
proof (cases "fallback_due s")
  case False
  then show ?thesis
    using legacy_hops_callbacks [OF odi_quiet [OF False]] by (simp add: odi_usingFallback)
next
  case True
  then have "\<not> m_usingFallback s" by (simp add: fallback_due_def)
  with True show ?thesis
    by (simp add: new_actions_def odi_trace odi_usingFallback legacy_hops_append attempt_hops
        attempt_last_protocol split: option.splits)
qed

lemma new_actions_self [simp]: "new_actions s s = []"
  by (simp add: new_actions_def)

lemma event_trace:
  "trace (mqtt_event_handler eng ev s) = trace s @ event_actions eng ev s"
proof (cases ev)
  case (MQTT_EVENT_CONNECTED x)
  then show ?thesis
    using new_actions_eq [OF onConnectedInternal_trace] by (simp add: event_actions_def)
next
  case (MQTT_EVENT_DISCONNECTED x)
  then show ?thesis using odi_new_actions by (simp add: event_actions_def)
next
  case (MQTT_EVENT_DATA t d)
  then show ?thesis
    using new_actions_eq [OF onDataInternal_trace] by (simp add: event_actions_def)
qed (simp_all add: event_actions_def)

lemma event_enableFallback [simp]:
  "m_enableFallback (mqtt_event_handler eng ev s) = m_enableFallback s"
  by (cases ev) simp_all

lemma event_quiet:
  assumes "m_usingFallback s \<or> \<not> m_enableFallback s"
  shows "list_all is_callback (event_actions eng ev s)"
    and "m_usingFallback (mqtt_event_handler eng ev s) = m_usingFallback s"
proof -
  from assms have nd: "\<not> fallback_due s" by (auto simp: fallback_due_def)
  show "list_all is_callback (event_actions eng ev s)"
    unfolding event_actions_def
    by (cases ev) (simp_all add: onConnectedInternal_quiet onDataInternal_quiet odi_quiet [OF nd])
  show "m_usingFallback (mqtt_event_handler eng ev s) = m_usingFallback s"
    using nd by (cases ev) (simp_all add: odi_usingFallback)
qed

lemma event_hops:
  "legacy_hops q (event_actions eng ev s) =
     (if \<not> m_usingFallback s \<and> m_usingFallback (mqtt_event_handler eng ev s) then 1 else 0)"
  unfolding event_actions_def
  using legacy_hops_callbacks [OF onConnectedInternal_quiet] legacy_hops_callbacks [OF onDataInternal_quiet]
  by (cases ev) (simp_all add: odi_hops)

lemma event_keeps_usingFallback:
  "m_usingFallback s \<Longrightarrow> m_usingFallback (mqtt_event_handler eng ev s)"
  using event_quiet(2) [of s eng ev] by simp

lemma handle_events_Nil [simp]: "handle_events eng [] s = s"
  by (simp add: handle_events_def)

lemma handle_events_Cons [simp]:
  "handle_events eng (ev # evs) s = handle_events eng evs (mqtt_event_handler eng ev s)"
  by (simp add: handle_events_def)

lemma handle_events_trace:
  "trace (handle_events eng evs s) = trace s @ new_actions s (handle_events eng evs s)"
proof (induction evs arbitrary: s)
  case Nil
  show ?case by simp
next
  case (Cons ev evs)
  have "trace (handle_events eng evs (mqtt_event_handler eng ev s)) =
      trace s @ (event_actions eng ev s @
        new_actions (mqtt_event_handler eng ev s) (handle_events eng evs (mqtt_event_handler eng ev s)))"
    using Cons.IH [of "mqtt_event_handler eng ev s"] by (simp add: event_trace)
  then show ?case unfolding handle_events_Cons by (rule new_actions_eq)
qed

lemma new_actions_Cons_event:
  "new_actions s (handle_events eng evs (mqtt_event_handler eng ev s)) =
     event_actions eng ev s @
     new_actions (mqtt_event_handler eng ev s) (handle_events eng evs (mqtt_event_handler eng ev s))"
proof -
  have "trace (handle_events eng evs (mqtt_event_handler eng ev s)) =
      trace s @ (event_actions eng ev s @
        new_actions (mqtt_event_handler eng ev s) (handle_events eng evs (mqtt_event_handler eng ev s)))"
    using handle_events_trace [of eng evs "mqtt_event_handler eng ev s"] by (simp add: event_trace)
  then show ?thesis by (rule new_actionsI)
qed

lemma legacy_events_quiet:
  assumes "m_usingFallback s"
  shows "m_usingFallback (handle_events eng evs s) \<and>
         list_all is_callback (new_actions s (handle_events eng evs s))"
  using assms
proof (induction evs arbitrary: s)
  case Nil
  then show ?case by simp
next
  case (Cons ev evs)
  have u: "m_usingFallback (mqtt_event_handler eng ev s)"
    using Cons.prems by (rule event_keeps_usingFallback)
  have q: "list_all is_callback (event_actions eng ev s)"
    using Cons.prems event_quiet(1) by simp
  from Cons.IH [OF u] q show ?case
    by (simp add: new_actions_Cons_event)
qed

lemma events_hops_bound:
  "legacy_hops q (new_actions s (handle_events eng evs s)) \<le> (if m_usingFallback s then 0 else 1)"
proof (induction evs arbitrary: s q)
  case Nil
  show ?case by simp
next
  case (Cons ev evs)
  let ?s' = "mqtt_event_handler eng ev s"
  have "legacy_hops q (new_actions s (handle_events eng (ev # evs) s)) =
      legacy_hops q (event_actions eng ev s) +
      legacy_hops (last_protocol q (event_actions eng ev s)) (new_actions ?s' (handle_events eng evs ?s'))"
    by (simp add: new_actions_Cons_event legacy_hops_append)
  also have "\<dots> \<le> (if \<not> m_usingFallback s \<and> m_usingFallback ?s' then 1 else 0) +
      (if m_usingFallback ?s' then 0 else 1)"
    using Cons.IH [of "last_protocol q (event_actions eng ev s)" ?s'] by (simp add: event_hops)
  also have "\<dots> \<le> (if m_usingFallback s then 0 else 1)"
    using event_keeps_usingFallback [of s eng ev] by auto
  finally show ?case .
qed

lemma connect_unfold:
  "connect eng (Some cid) s =
      (if cid = [] then Inr (False, s\<lparr>m_clientId := Some cid\<rparr>)
       else if fst (connectWithProtocol eng 5 (s\<lparr>m_clientId := Some cid\<rparr>))
       then Inr (True, (snd (connectWithProtocol eng 5 (s\<lparr>m_clientId := Some cid\<rparr>)))\<lparr>m_usingFallback := False\<rparr>)
       else if m_enableFallback s
       then (if fst (connectWithProtocol eng 4 (snd (connectWithProtocol eng 5 (s\<lparr>m_clientId := Some cid\<rparr>))))
             then Inr (True, (snd (connectWithProtocol eng 4 (snd (connectWithProtocol eng 5 (s\<lparr>m_clientId := Some cid\<rparr>)))))\<lparr>m_usingFallback := True\<rparr>)
             else Inr (False, snd (connectWithProtocol eng 4 (snd (connectWithProtocol eng 5 (s\<lparr>m_clientId := Some cid\<rparr>))))))
       else Inr (False, snd (connectWithProtocol eng 5 (s\<lparr>m_clientId := Some cid\<rparr>))))"
  by (simp add: connect_def Let_def split_beta)

lemma connect_summary:
  fixes eng cid s
  defines "s1 \<equiv> s\<lparr>m_clientId := Some cid\<rparr>"
  defines "s2 \<equiv> snd (connectWithProtocol eng 5 s1)"
  defines "ok5 \<equiv> fst (connectWithProtocol eng 5 s1)"
  defines "ok4 \<equiv> fst (connectWithProtocol eng 4 s2)"
  defines "s' \<equiv> run_step eng s (Connect cid)"
  shows "connect eng (Some cid) s = Inr (connect_ok eng cid s, s')"
    and "trace s' = trace s @
           (if cid = [] then []
            else attempt_actions eng 5 s1 @
                 (if \<not> ok5 \<and> m_enableFallback s then attempt_actions eng 4 s2 else []))"
    and "m_enableFallback s' = m_enableFallback s"
    and "m_usingFallback s' =
           (if cid = [] then m_usingFallback s
            else if ok5 then False
            else if m_enableFallback s \<and> ok4 then True
            else m_usingFallback s)"
    and "connect_ok eng cid s = (cid \<noteq> [] \<and> (ok5 \<or> m_enableFallback s \<and> ok4))"
proof -
  have t1: "trace s1 = trace s" by (simp add: s1_def)
  have t2: "trace s2 = trace s @ attempt_actions eng 5 s1"
    by (simp add: s2_def cwp_trace t1)
  have t3: "trace (snd (connectWithProtocol eng 4 s2)) =
      trace s @ attempt_actions eng 5 s1 @ attempt_actions eng 4 s2"
    by (simp add: cwp_trace t2)
  have c: "connect eng (Some cid) s =
      (if cid = [] then Inr (False, s1)
       else if ok5 then Inr (True, s2\<lparr>m_usingFallback := False\<rparr>)
       else if m_enableFallback s
       then (if ok4 then Inr (True, (snd (connectWithProtocol eng 4 s2))\<lparr>m_usingFallback := True\<rparr>)
             else Inr (False, snd (connectWithProtocol eng 4 s2)))
       else Inr (False, s2))"
    unfolding s1_def s2_def ok5_def ok4_def by (rule connect_unfold)
  show "connect eng (Some cid) s = Inr (connect_ok eng cid s, s')"
    unfolding connect_ok_def s'_def run_step.simps c by simp
  show "trace s' = trace s @
           (if cid = [] then []
            else attempt_actions eng 5 s1 @
                 (if \<not> ok5 \<and> m_enableFallback s then attempt_actions eng 4 s2 else []))"
    unfolding s'_def run_step.simps c by (simp add: t1 t2 t3)
  show "m_enableFallback s' = m_enableFallback s"
    unfolding s'_def run_step.simps c by (simp add: s1_def s2_def)
  show "m_usingFallback s' =
           (if cid = [] then m_usingFallback s
            else if ok5 then False
            else if m_enableFallback s \<and> ok4 then True
            else m_usingFallback s)"
    unfolding s'_def run_step.simps c by (simp add: s1_def s2_def)
  show "connect_ok eng cid s = (cid \<noteq> [] \<and> (ok5 \<or> m_enableFallback s \<and> ok4))"
    unfolding connect_ok_def c by simp
qed

lemma connect_actions_eq:
  "connect_actions eng cid s =
     (if cid = [] then []
      else attempt_actions eng 5 (s\<lparr>m_clientId := Some cid\<rparr>) @
           (if \<not> fst (connectWithProtocol eng 5 (s\<lparr>m_clientId := Some cid\<rparr>)) \<and> m_enableFallback s
            then attempt_actions eng 4 (snd (connectWithProtocol eng 5 (s\<lparr>m_clientId := Some cid\<rparr>)))
            else []))"
  unfolding connect_actions_def by (rule new_actionsI) (rule connect_summary(2))

lemma connect_trace:
  "trace (run_step eng s (Connect cid)) = trace s @ connect_actions eng cid s"
  unfolding connect_actions_def by (rule new_actions_eq) (rule connect_summary(2))

lemma list_ex_false_filter: "length (filter P xs) = 0 \<Longrightarrow> \<not> list_ex P xs"
  by (simp add: filter_empty_conv list_ex_iff)

lemma attempt5_no_legacy: "\<not> list_ex is_legacy_init (attempt_actions eng 5 s)"
  by (rule list_ex_false_filter) (simp add: attempt_legacy_inits)

lemma connect_started:
  "connect_ok eng cid s = list_ex is_started_ok (connect_actions eng cid s)"
  by (auto simp: connect_summary(5) connect_actions_eq attempt_started [symmetric])

lemma connect_hops:
  "legacy_hops q (connect_actions eng cid s) \<le> (if m_usingFallback (run_step eng s (Connect cid)) then 1 else 0)"
  by (simp add: connect_actions_eq connect_summary(4) legacy_hops_append attempt_hops attempt_last_protocol)

lemma connect_no_legacy:
  "\<not> m_enableFallback s \<Longrightarrow> \<not> list_ex is_legacy_init (connect_actions eng cid s)"
  by (simp add: connect_actions_eq attempt5_no_legacy)

lemma connect_inits_bound:
  "\<not> m_enableFallback s \<Longrightarrow> length (filter is_client_init (connect_actions eng cid s)) \<le> 1"
  by (simp add: connect_actions_eq attempt_inits)

lemma run_Nil [simp]: "run eng [] s = s"
  by (simp add: run_def)

lemma run_Cons [simp]: "run eng (st # steps) s = run eng steps (run_step eng s st)"
  by (simp add: run_def)

lemma step_trace: "trace (run_step eng s st) = trace s @ step_actions eng st s"
  unfolding step_actions_def
  by (cases st) (simp_all add: connect_trace [unfolded connect_actions_def] run_step.simps(2)
      event_trace [unfolded event_actions_def])

lemma step_enableFallback: "m_enableFallback (run_step eng s st) = m_enableFallback s"
  by (cases st) (simp_all add: connect_summary(3) run_step.simps(2))

lemma step_no_legacy:
  assumes "\<not> m_enableFallback s"
  shows "\<not> list_ex is_legacy_init (step_actions eng st s)"
proof (cases st)
  case (Connect cid)
  then show ?thesis
    using connect_no_legacy [OF assms, of eng cid] by (simp add: step_actions_def connect_actions_def)
next
  case (Event ev)
  then show ?thesis
    using callbacks_no_init [OF event_quiet(1) [of s eng ev]] assms
    by (simp add: step_actions_def event_actions_def run_step.simps(2))
qed

lemma run_no_legacy:
  assumes "\<not> m_enableFallback s"
  shows "trace (run eng steps s) = trace s @ new_actions s (run eng steps s) \<and>
         \<not> list_ex is_legacy_init (new_actions s (run eng steps s)) \<and>
         \<not> m_enableFallback (run eng steps s)"
  using assms
proof (induction steps arbitrary: s)
  case Nil
  then show ?case by simp
next
  case (Cons st steps)
  let ?s' = "run_step eng s st"
  have e: "\<not> m_enableFallback ?s'"
    using Cons.prems by (simp add: step_enableFallback)
  note ih = Cons.IH [OF e]
  have t: "trace (run eng steps ?s') = trace s @ (step_actions eng st s @ new_actions ?s' (run eng steps ?s'))"
    using ih by (simp add: step_trace)
  have n: "new_actions s (run eng steps ?s') = step_actions eng st s @ new_actions ?s' (run eng steps ?s')"
    using t by (rule new_actionsI)
  show ?case
    unfolding run_Cons
    using new_actions_eq [OF t] ih step_no_legacy [OF Cons.prems, of eng st]
    by (simp add: n)
qed

lemmas locator_eval = parseMqttUri_def scheme_of_text_def to_lower_def parse_port_def is_digit_def
  parse_decimal_def digit_value_def strip_credentials_def default_port_def Let_def
  buildMqttUri_def scheme_text_def isWebSocket_def isSecure_def show_decimal.simps digit_char_def char_of_def bit_Suc_0_iff bit_0

lemmas client_eval = run_step.simps connect_def connectWithProtocol_def buildUriIfNeeded_def
  mqtt_cfg_def emit_def MqttClient_new_def setProtocolFallback_def begin_client_def
  parseUriComponents_def onDisconnect_def onConnect_def onMessage_def onDisconnectedInternal_def
  reconnectWithFallback_def call_disconnectCallback_def onConnectedInternal_def onDataInternal_def
  new_actions_def ESP_OK_def fill_buffer_def Let_def

lemma app_client_eq: "app_client = MqttClient_new\<lparr>m_host := Some ''broker.example.com'', m_port := 8883,
    m_secure := True, m_enableFallback := True, m_messageCallback := Some 1, m_connectCallback := Some 2, m_disconnectCallback := Some 3\<rparr>"
  by (simp add: app_client_def client_eval locator_eval)

lemma fill_buffer_fits:
  assumes "length bytes < n"
  shows "length (fill_buffer n bytes) = n" "take (length bytes) (fill_buffer n bytes) = bytes"
    "fill_buffer n bytes ! length bytes = CHR 0x00"
    "CHR 0x00 \<notin> set bytes \<Longrightarrow> c_str (fill_buffer n bytes) = bytes"
proof -
  show "length (fill_buffer n bytes) = n" "take (length bytes) (fill_buffer n bytes) = bytes"
    using assms by (simp_all add: fill_buffer_def)
  show "fill_buffer n bytes ! length bytes = CHR 0x00"
    using assms by (simp add: fill_buffer_def nth_append)
  assume "CHR 0x00 \<notin> set bytes"
  then have "\<forall>x \<in> set bytes. x \<noteq> CHR 0x00" by auto
  moreover have "replicate (n - length bytes) (CHR 0x00) = CHR 0x00 # replicate (n - length bytes - 1) (CHR 0x00)"
    using assms by (cases "n - length bytes") simp_all
  ultimately show "c_str (fill_buffer n bytes) = bytes"
    using assms by (simp add: fill_buffer_def c_str_def takeWhile_append2)
qed

lemma configure_client: "m_client (configure s c) = m_client s"
  by (cases c)
    (simp_all add: begin_client_def parseUriComponents_def setServer_def setWebSocket_def
      setPath_def setCredentials_def setKeepalive_def setCACert_def setClientCert_def
      setClientKey_def setInsecure_def setProtocolFallback_def onMessage_def onConnect_def
      onDisconnect_def disconnect_def loop_def emit_def Let_def split: option.splits)

lemma configured_client: "m_client (foldl configure s calls) = m_client s"
  by (induction calls arbitrary: s) (simp_all add: configure_client)

lemmas sample_eval = app_client_eq connected_client_def legacy_client_def engine_ok_def
  engine_legacy_only_def engine_down_def tcp_error_def connect_ok_def handle_events_def
  setWebSocket_def

lemma odi_callback_once:
  assumes "m_connected s" and "m_disconnectCallback s = Some cb"
  shows "let acts = new_actions s (onDisconnectedInternal eng s) in
           trace (onDisconnectedInternal eng s) = trace s @ acts \<and>
           filter is_callback acts = (if list_ex is_started_ok acts then [] else [Call_disconnect cb]) \<and>
           (list_ex is_started_ok acts \<longrightarrow> list_ex is_legacy_init acts) \<and>
           (list_ex is_client_init acts = (m_enableFallback s \<and> \<not> m_usingFallback s)) \<and>
           (list_ex is_client_init acts \<and> \<not> list_ex is_started_ok acts \<longrightarrow> last acts = Call_disconnect cb)"
proof (cases "fallback_due s")
  case False
  then have "new_actions s (onDisconnectedInternal eng s) = [Call_disconnect cb]"
    using assms by (intro new_actionsI) (simp add: odi_trace)
  moreover have "trace (onDisconnectedInternal eng s) = trace s @ [Call_disconnect cb]"
    using False assms by (simp add: odi_trace)
  ultimately show ?thesis
    using False assms by (simp add: fallback_due_def)
next
  case True
  let ?b = "before_attempt s"
  show ?thesis
  proof (cases "fst (connectWithProtocol eng 4 ?b)")
    case ok: True
    have t: "trace (onDisconnectedInternal eng s) = trace s @ Delay 1000 # attempt_actions eng 4 ?b"
      using True ok by (simp add: odi_trace)
    then have n: "new_actions s (onDisconnectedInternal eng s) = Delay 1000 # attempt_actions eng 4 ?b"
      by (rule new_actionsI)
    have "list_ex is_started_ok (attempt_actions eng 4 ?b)"
      using ok by (simp add: attempt_started)
    then show ?thesis
      using True t attempt_has_legacy_init [of eng ?b] attempt_has_init [of eng 4 ?b]
      by (simp add: n fallback_due_def)
  next
    case failed: False
    have t: "trace (onDisconnectedInternal eng s) =
        trace s @ Delay 1000 # attempt_actions eng 4 ?b @ [Call_disconnect cb]"
      using True failed assms by (simp add: odi_trace)
    then have n: "new_actions s (onDisconnectedInternal eng s) =
        Delay 1000 # attempt_actions eng 4 ?b @ [Call_disconnect cb]"
      by (rule new_actionsI)
    have "\<not> list_ex is_started_ok (attempt_actions eng 4 ?b)"
      using failed by (simp add: attempt_started)
    then show ?thesis
      using True t attempt_has_init [of eng 4 ?b]
      by (simp add: n fallback_due_def)
  qed
qed

lemma connect_connected: "m_connected (run_step eng s (Connect cid)) = m_connected s"
  unfolding run_step.simps connect_unfold by simp

lemma event_not_connected:
  assumes "\<not> m_connected s" and "\<not> is_connected_event (Event ev)"
  shows "\<not> m_connected (mqtt_event_handler eng ev s)"
  using assms by (cases ev) (simp_all add: onDataInternal_def emit_def split: option.splits)

lemma step_not_connected:
  assumes "\<not> m_connected s" and "\<not> is_connected_event st"
  shows "\<not> m_connected (run_step eng s st)"
proof (cases st)
  case (Connect cid)
  then show ?thesis using assms(1) by (simp add: connect_connected)
next
  case (Event ev)
  then show ?thesis using event_not_connected [of s ev eng] assms by (simp add: run_step.simps(2))
qed

lemma run_not_connected:
  assumes "\<not> m_connected s" and "\<not> list_ex is_connected_event steps"
  shows "\<not> m_connected (run eng steps s)"
  using assms
proof (induction steps arbitrary: s)
  case Nil
  then show ?case by simp
next
  case (Cons st steps)
  from Cons.prems have "\<not> m_connected (run_step eng s st)"
    by (intro step_not_connected) simp_all
  with Cons show ?case by simp
qed

text \<open>
  \<^verbatim>\<open>connect\<close> does not clear \<^verbatim>\<open>_connected\<close>: after a connected event and a second
  \<^verbatim>\<open>connect\<close>, an error and a disconnect event start a version 4 attempt.
\<close>

lemma stale_connected_flag_example:
  "m_connected (run engine_ok [Connect ''a'', Event (MQTT_EVENT_CONNECTED 0), Connect ''a''] app_client) \<and>
   new_actions (run engine_ok [Connect ''a'', Event (MQTT_EVENT_CONNECTED 0), Connect ''a''] app_client)
     (handle_events engine_ok [MQTT_EVENT_ERROR tcp_error, MQTT_EVENT_DISCONNECTED (Some tcp_error)]
        (run engine_ok [Connect ''a'', Event (MQTT_EVENT_CONNECTED 0), Connect ''a''] app_client)) =
     [Delay 1000, Client_stop 1, Client_destroy 1,
      Client_init (mqtt_cfg 4 (run engine_ok [Connect ''a'', Event (MQTT_EVENT_CONNECTED 0), Connect ''a''] app_client)) (Some 1),
      Client_register_event 1, Client_start 1 ESP_OK]"
  by (simp add: sample_eval client_eval)

section \<open>The claims\<close>

subsection \<open>Disconnect events\<close>

text \<open>
  Claim C1. The engine reports a disconnect event (\<open>MQTT_EVENT_DISCONNECTED\<close>, with or
  without an error handle) while a session is established (\<open>m_connected\<close>) and the
  application has registered a disconnect callback. The event handler then invokes that
  callback exactly once, except that it does not invoke it when a fallback attempt was made
  and the engine started (the start returned \<^verbatim>\<open>ESP_OK\<close>). A fallback attempt (an engine
  initialisation, for protocol version 4) is made exactly when fallback is enabled and the
  session is not already a fallback session; when it is made and fails, the callback is
  the last action, after every engine call of the attempt.
\<close>

theorem disconnect_callback_exactly_once:
  assumes "m_connected s" and "m_disconnectCallback s = Some cb"
  shows "let acts = new_actions s (mqtt_event_handler eng (MQTT_EVENT_DISCONNECTED eh) s) in
           trace (mqtt_event_handler eng (MQTT_EVENT_DISCONNECTED eh) s) = trace s @ acts \<and>
           filter is_callback acts = (if list_ex is_started_ok acts then [] else [Call_disconnect cb]) \<and>
           (list_ex is_started_ok acts \<longrightarrow> list_ex is_legacy_init acts) \<and>
           (list_ex is_client_init acts = (m_enableFallback s \<and> \<not> m_usingFallback s)) \<and>
           (list_ex is_client_init acts \<and> \<not> list_ex is_started_ok acts \<longrightarrow> last acts = Call_disconnect cb)"
  using odi_callback_once [OF assms, of eng] by simp

theorem disconnect_callback_exactly_once_witness:
  "m_connected connected_client \<and> m_disconnectCallback connected_client = Some 3 \<and>
   new_actions connected_client
     (mqtt_event_handler engine_down (MQTT_EVENT_DISCONNECTED (Some tcp_error)) connected_client) =
     [Delay 1000, Client_stop 1, Client_destroy 1,
      Client_init (mqtt_cfg 4 connected_client) None, Call_disconnect 3] \<and>
   filter is_callback (new_actions connected_client
     (mqtt_event_handler engine_ok (MQTT_EVENT_DISCONNECTED None) connected_client)) = []"
  using disconnect_callback_exactly_once [of connected_client 3 engine_down "Some tcp_error"]
  by (simp add: sample_eval client_eval)

text \<open>
  Claim C2. Once the client runs a legacy-protocol session (\<open>m_usingFallback\<close>), no
  sequence of engine events makes it call the engine again: the events only invoke
  callbacks, and the client stays a fallback client. And in a connect cycle, a call of
  \<^verbatim>\<open>connect\<close> followed by any events, at most one attempt with protocol version 4 is
  started successfully.
\<close>

theorem legacy_session_never_falls_back:
  "(m_usingFallback s \<longrightarrow>
      m_usingFallback (handle_events eng evs s) \<and>
      trace (handle_events eng evs s) = trace s @ new_actions s (handle_events eng evs s) \<and>
      list_all is_callback (new_actions s (handle_events eng evs s)) \<and>
      \<not> list_ex is_client_init (new_actions s (handle_events eng evs s))) \<and>
   legacy_hops q (new_actions s (handle_events eng evs (run_step eng s (Connect cid)))) \<le> 1"
proof -
  let ?c = "run_step eng s (Connect cid)"
  have "trace (handle_events eng evs ?c) =
      trace s @ (connect_actions eng cid s @ new_actions ?c (handle_events eng evs ?c))"
    using handle_events_trace [of eng evs ?c] by (simp add: connect_trace)
  then have "new_actions s (handle_events eng evs ?c) =
      connect_actions eng cid s @ new_actions ?c (handle_events eng evs ?c)"
    by (rule new_actionsI)
  then have "legacy_hops q (new_actions s (handle_events eng evs ?c)) =
      legacy_hops q (connect_actions eng cid s) +
      legacy_hops (last_protocol q (connect_actions eng cid s)) (new_actions ?c (handle_events eng evs ?c))"
    by (simp add: legacy_hops_append)
  also have "\<dots> \<le> (if m_usingFallback ?c then 1 else 0) + (if m_usingFallback ?c then 0 else 1)"
    by (rule add_mono [OF connect_hops events_hops_bound])
  also have "\<dots> = 1" by simp
  finally have "legacy_hops q (new_actions s (handle_events eng evs ?c)) \<le> 1" .
  then show ?thesis
    using legacy_events_quiet [of s eng evs] handle_events_trace [of eng evs s]
      callbacks_no_init [of "new_actions s (handle_events eng evs s)"]
    by simp
qed

theorem legacy_session_never_falls_back_witness:
  "m_usingFallback legacy_client \<and>
   new_actions legacy_client
     (handle_events engine_ok [MQTT_EVENT_DISCONNECTED (Some tcp_error), MQTT_EVENT_CONNECTED 0,
        MQTT_EVENT_DISCONNECTED None] legacy_client) =
     [Call_disconnect 3, Call_connect 2, Call_disconnect 3] \<and>
   legacy_hops 0 (new_actions connected_client
     (handle_events engine_ok [MQTT_EVENT_DISCONNECTED None, MQTT_EVENT_CONNECTED 0,
        MQTT_EVENT_DISCONNECTED None]
        (run_step engine_ok connected_client (Connect ''esp32_mtls_client'')))) = 1"
  using legacy_session_never_falls_back [of legacy_client engine_ok
      "[MQTT_EVENT_DISCONNECTED (Some tcp_error), MQTT_EVENT_CONNECTED 0, MQTT_EVENT_DISCONNECTED None]"
      0 "''esp32_mtls_client''"]
  by (simp add: sample_eval client_eval)

text \<open>
  Claim C3. With protocol fallback disabled, no sequence of \<^verbatim>\<open>connect\<close> calls and engine
  events initialises the engine for protocol version 4. A \<^verbatim>\<open>connect\<close> then makes at most
  one engine initialisation and returns true exactly when the engine started, so a failed
  version 5 attempt is reported at once by the result false; and a disconnect event only
  invokes the disconnect callback.
\<close>

theorem fallback_disabled_no_legacy_attempt:
  assumes "\<not> m_enableFallback s"
  shows "\<not> list_ex is_legacy_init (new_actions s (run eng steps s)) \<and>
         connect_ok eng cid s = list_ex is_started_ok (new_actions s (run_step eng s (Connect cid))) \<and>
         length (filter is_client_init (new_actions s (run_step eng s (Connect cid)))) \<le> 1 \<and>
         new_actions s (mqtt_event_handler eng (MQTT_EVENT_DISCONNECTED eh) s) =
           (case m_disconnectCallback s of None \<Rightarrow> [] | Some cb \<Rightarrow> [Call_disconnect cb])"
proof -
  have nd: "\<not> fallback_due s" using assms by (simp add: fallback_due_def)
  have "new_actions s (onDisconnectedInternal eng s) =
      (case m_disconnectCallback s of None \<Rightarrow> [] | Some cb \<Rightarrow> [Call_disconnect cb])"
    by (rule new_actionsI) (simp add: odi_trace nd)
  then show ?thesis
    using run_no_legacy [OF assms, of eng steps] connect_started [of eng cid s]
      connect_inits_bound [OF assms, of eng cid]
    by (simp add: connect_actions_def)
qed

theorem fallback_disabled_no_legacy_attempt_witness:
  "\<not> m_enableFallback (setProtocolFallback False app_client) \<and>
   \<not> connect_ok engine_legacy_only ''esp32_mtls_client'' (setProtocolFallback False app_client) \<and>
   new_actions (setProtocolFallback False app_client)
     (run engine_legacy_only [Connect ''esp32_mtls_client'', Event (MQTT_EVENT_DISCONNECTED None)]
        (setProtocolFallback False app_client)) =
     [Client_init (mqtt_cfg 5 ((setProtocolFallback False app_client)\<lparr>m_clientId := Some ''esp32_mtls_client''\<rparr>)) None,
      Call_disconnect 3]"
  using fallback_disabled_no_legacy_attempt [of "setProtocolFallback False app_client" engine_legacy_only
      "[Connect ''esp32_mtls_client'', Event (MQTT_EVENT_DISCONNECTED None)]" "''esp32_mtls_client''" None]
  by (simp add: sample_eval client_eval)

text \<open>
  The claim C4 as stated (a transport error before a connection is established triggers a
  legacy-protocol attempt when fallback is enabled) fails: the example client, with fallback
  enabled, has started a version 5 attempt and is not yet connected; an error event and the
  disconnect event after it produce the disconnect callback and nothing else.
\<close>

theorem transport_error_before_connection_counterexample:
  "m_enableFallback app_client \<and> \<not> m_connected (run engine_ok [Connect ''esp32''] app_client) \<and>
   new_actions (run engine_ok [Connect ''esp32''] app_client)
     (run engine_ok [Connect ''esp32'', Event (MQTT_EVENT_ERROR tcp_error),
                     Event (MQTT_EVENT_DISCONNECTED (Some tcp_error))] app_client) = [Call_disconnect 3]"
  by (simp add: app_client_eq client_eval engine_ok_def)

text \<open>
  Claim C4, amended. A transport-level error is diagnostic only: the error event leaves
  the client unchanged. When no connected event has been handled since \<^verbatim>\<open>_connected\<close> was
  last clear (since the client was constructed, or since the last disconnect event; calls
  of \<^verbatim>\<open>connect\<close> and all other events in between do not set the flag), the disconnect
  event that follows the error makes no engine call, whatever the fallback setting; it only
  invokes the disconnect callback, if one is registered.
\<close>

theorem transport_error_before_connection_reports_only:
  assumes "\<not> m_connected s0" and "\<not> list_ex is_connected_event steps"
  shows "let s = run eng steps s0 in
           \<not> m_connected s \<and>
           mqtt_event_handler eng (MQTT_EVENT_ERROR e) s = s \<and>
           new_actions s (handle_events eng [MQTT_EVENT_ERROR e, MQTT_EVENT_DISCONNECTED eh] s) =
             (case m_disconnectCallback s of None \<Rightarrow> [] | Some cb \<Rightarrow> [Call_disconnect cb]) \<and>
           \<not> list_ex is_client_init
               (new_actions s (handle_events eng [MQTT_EVENT_ERROR e, MQTT_EVENT_DISCONNECTED eh] s)) \<and>
           \<not> m_connected MqttClient_new \<and>
           \<not> m_connected (mqtt_event_handler eng (MQTT_EVENT_DISCONNECTED eh) s1)"
proof -
  let ?s = "run eng steps s0"
  have c: "\<not> m_connected ?s" using assms by (rule run_not_connected)
  then have nd: "\<not> fallback_due ?s" by (simp add: fallback_due_def)
  have "new_actions ?s (onDisconnectedInternal eng ?s) =
      (case m_disconnectCallback ?s of None \<Rightarrow> [] | Some cb \<Rightarrow> [Call_disconnect cb])"
    by (rule new_actionsI) (simp add: odi_trace nd)
  then show ?thesis using c by (simp add: Let_def MqttClient_new_def split: option.splits)
qed

theorem transport_error_before_connection_reports_only_witness:
  "\<not> m_connected app_client \<and>
   \<not> list_ex is_connected_event [Connect ''esp32_mtls_client'', Event (MQTT_EVENT_ERROR tcp_error)] \<and>
   new_actions (run engine_ok [Connect ''esp32_mtls_client'', Event (MQTT_EVENT_ERROR tcp_error)] app_client)
     (handle_events engine_ok [MQTT_EVENT_ERROR tcp_error, MQTT_EVENT_DISCONNECTED (Some tcp_error)]
        (run engine_ok [Connect ''esp32_mtls_client'', Event (MQTT_EVENT_ERROR tcp_error)] app_client)) =
     [Call_disconnect 3]"
  using transport_error_before_connection_reports_only
    [of app_client "[Connect ''esp32_mtls_client'', Event (MQTT_EVENT_ERROR tcp_error)]"
        engine_ok tcp_error "Some tcp_error" app_client]
  by (simp add: sample_eval client_eval)

subsection \<open>Data events\<close>

text \<open>
  The claim C5 as stated (every data event is forwarded verbatim) fails for a topic of 256
  bytes: the handler does not copy it, and the callback receives an empty topic.
\<close>

theorem data_event_forwarded_counterexample:
  "new_actions (onMessage (Some 1) MqttClient_new)
     (mqtt_event_handler engine_ok (MQTT_EVENT_DATA (replicate 256 (CHR ''t'')) ''on'')
        (onMessage (Some 1) MqttClient_new)) =
     [Call_message 1 (replicate 256 (CHR 0x00)) (''on'' @ replicate 510 (CHR 0x00)) 2] \<and>
   c_str (replicate 256 (CHR 0x00)) = [] \<and>
   replicate 256 (CHR ''t'') \<noteq> []"
  by (simp add: client_eval c_str_def)

text \<open>
  Claim C5, amended. For every data event whose topic is shorter than 256 bytes and whose
  payload is shorter than 512 bytes, the registered message callback is invoked once, with
  the reported payload length and with buffers that begin with the topic bytes and the
  payload bytes, unmodified; the topic is followed by a NUL, so a topic without NUL bytes is
  read back as it was sent.
\<close>

theorem data_event_forwarded_when_it_fits:
  assumes "m_messageCallback s = Some cb" and "length topic < 256" and "length data < 512"
  shows "new_actions s (mqtt_event_handler eng (MQTT_EVENT_DATA topic data) s) =
           [Call_message cb (fill_buffer 256 topic) (fill_buffer 512 data) (int (length data))] \<and>
         take (length topic) (fill_buffer 256 topic) = topic \<and>
         fill_buffer 256 topic ! length topic = CHR 0x00 \<and>
         (CHR 0x00 \<notin> set topic \<longrightarrow> c_str (fill_buffer 256 topic) = topic) \<and>
         take (length data) (fill_buffer 512 data) = data"
proof -
  have "new_actions s (mqtt_event_handler eng (MQTT_EVENT_DATA topic data) s) =
      [Call_message cb (fill_buffer 256 topic) (fill_buffer 512 data) (int (length data))]"
    using assms(1) by (intro new_actionsI) (simp add: onDataInternal_trace)
  then show ?thesis
    using fill_buffer_fits [OF assms(2)] fill_buffer_fits(2) [OF assms(3)] by simp
qed

theorem data_event_forwarded_when_it_fits_witness:
  "m_messageCallback app_client = Some 1 \<and> length ''device/command'' < (256::nat) \<and>
   length ''on'' < (512::nat) \<and>
   new_actions app_client (mqtt_event_handler engine_ok (MQTT_EVENT_DATA ''device/command'' ''on'') app_client) =
     [Call_message 1 (fill_buffer 256 ''device/command'') (fill_buffer 512 ''on'') (int (length ''on''))] \<and>
   c_str (fill_buffer 256 ''device/command'') = ''device/command'' \<and>
   take (length ''on'') (fill_buffer 512 ''on'') = ''on''"
proof -
  have h1: "m_messageCallback app_client = Some 1" by (simp add: sample_eval)
  have h2: "length ''device/command'' < (256::nat)" by simp
  have h3: "length ''on'' < (512::nat)" by simp
  have h4: "CHR 0x00 \<notin> set ''device/command''" by simp
  from data_event_forwarded_when_it_fits [OF h1 h2 h3, of engine_ok] h1 h2 h3 h4
  show ?thesis by blast
qed

subsection \<open>Locators\<close>

text \<open>
  The claim C6 as stated (the round trip is field-wise equal for every accepted locator)
  fails for \<^verbatim>\<open>mqtt://h/x\<close>: its path \<^verbatim>\<open>/x\<close> is retained by \<open>Parse\<close>, left out by \<open>Build\<close>
  because the scheme is not a WebSocket scheme, and read back as the default \<^verbatim>\<open>/\<close>.
\<close>

theorem roundtrip_counterexample:
  "parseMqttUri ''mqtt://h/x'' = Some \<lparr>scheme = Mqtt, host = ''h'', port = 1883, path = ''/x''\<rparr> \<and>
   buildMqttUri \<lparr>scheme = Mqtt, host = ''h'', port = 1883, path = ''/x''\<rparr> = ''mqtt://h'' \<and>
   parseMqttUri ''mqtt://h'' = Some \<lparr>scheme = Mqtt, host = ''h'', port = 1883, path = ''/''\<rparr>"
  by (simp add: locator_eval)

text \<open>
  Claim C6, amended. For every locator \<open>x\<close> that \<open>Parse\<close> accepts, \<open>Parse (Build (Parse x))\<close>
  is accepted too and has the scheme, host and port of \<open>Parse x\<close>; its path is that of
  \<open>Parse x\<close> when the scheme is ws or wss, and the default \<^verbatim>\<open>/\<close> otherwise.
\<close>

theorem roundtrip:
  assumes "parseMqttUri x = Some p"
  shows "parseMqttUri (buildMqttUri p) = Some (if isWebSocket p then p else p\<lparr>path := ''/''\<rparr>)"
  using parse_build [of p] parseMqttUri_SomeD [OF assms] by simp

theorem roundtrip_witness:
  "parseMqttUri ''WSS://user:pw@broker.example.com:9001/mqtt'' =
     Some \<lparr>scheme = Wss, host = ''broker.example.com'', port = 9001, path = ''/mqtt''\<rparr> \<and>
   parseMqttUri (buildMqttUri \<lparr>scheme = Wss, host = ''broker.example.com'', port = 9001, path = ''/mqtt''\<rparr>) =
     Some \<lparr>scheme = Wss, host = ''broker.example.com'', port = 9001, path = ''/mqtt''\<rparr>"
proof -
  have p: "parseMqttUri ''WSS://user:pw@broker.example.com:9001/mqtt'' =
      Some \<lparr>scheme = Wss, host = ''broker.example.com'', port = 9001, path = ''/mqtt''\<rparr>"
    by (simp add: locator_eval)
  from roundtrip [OF p] p show ?thesis
    by (simp add: isWebSocket_def)
qed

text \<open>
  Claim C7. When \<^verbatim>\<open>begin\<close> is given a locator that the parser rejects, nothing is
  configured: the client is left exactly as it was, and so are its host and port.
\<close>

theorem begin_malformed_locator_changes_nothing:
  assumes "parseMqttUri uri = None"
  shows "begin_client uri s = s"
  using assms by (simp add: begin_client_def parseUriComponents_def)

theorem begin_malformed_locator_changes_nothing_witness:
  "parseMqttUri ''broker.example.com:1883'' = None \<and>
   begin_client ''broker.example.com:1883'' app_client = app_client \<and>
   parseMqttUri ''http://broker.example.com'' = None \<and>
   begin_client ''http://broker.example.com'' app_client = app_client \<and>
   parseMqttUri ''mqtt://:1883'' = None \<and>
   begin_client ''mqtt://:1883'' app_client = app_client \<and>
   parseMqttUri ''mqtt://broker.example.com:70000'' = None \<and>
   begin_client ''mqtt://broker.example.com:70000'' app_client = app_client"
proof -
  have a: "parseMqttUri ''broker.example.com:1883'' = None"
    and b: "parseMqttUri ''http://broker.example.com'' = None"
    and c: "parseMqttUri ''mqtt://:1883'' = None"
    and d: "parseMqttUri ''mqtt://broker.example.com:70000'' = None"
    by (simp_all add: locator_eval)
  show ?thesis
    using a b c d begin_malformed_locator_changes_nothing [OF a, of app_client]
      begin_malformed_locator_changes_nothing [OF b, of app_client]
      begin_malformed_locator_changes_nothing [OF c, of app_client]
      begin_malformed_locator_changes_nothing [OF d, of app_client]
    by simp
qed

text \<open>
  Claim C9. \<open>Build\<close> emits the scheme text for the scheme, \<^verbatim>\<open>://\<close>, the host, the port
  after a colon unless it is the default of the scheme, and the path only for a WebSocket
  scheme and a non-empty path. The client builds a URI exactly when WebSocket is enabled or
  the stored path is a non-empty string, from the scheme its two flags select; this is the
  URI that a connection attempt uses.
\<close>

theorem buildUriIfNeeded_uri:
  "buildMqttUri parts =
     (case scheme parts of Mqtt \<Rightarrow> ''mqtt'' | Mqtts \<Rightarrow> ''mqtts'' | Ws \<Rightarrow> ''ws'' | Wss \<Rightarrow> ''wss'') @
     ''://'' @ host parts @
     (if port parts = default_port (scheme parts) then [] else '':'' @ show_decimal (port parts)) @
     (if (scheme parts = Ws \<or> scheme parts = Wss) \<and> path parts \<noteq> [] then path parts else []) \<and>
   m_uri (buildUriIfNeeded s) =
     (if m_useWebSocket s \<or> (m_path s \<noteq> None \<and> m_path s \<noteq> Some [])
      then Some (buildMqttUri
             \<lparr>scheme = (if m_secure s then (if m_useWebSocket s then Wss else Mqtts)
                        else (if m_useWebSocket s then Ws else Mqtt)),
              host = (case m_host s of None \<Rightarrow> [] | Some h \<Rightarrow> h),
              port = unat (m_port s),
              path = (if m_useWebSocket s then (case m_path s of None \<Rightarrow> ''/'' | Some p \<Rightarrow> p) else [])\<rparr>)
      else None) \<and>
   m_uri (snd (connectWithProtocol eng protocol s)) = m_uri (buildUriIfNeeded s)"
proof -
  have "m_uri (snd (connectWithProtocol eng protocol s)) = m_uri (buildUriIfNeeded s)"
    by (cases rule: cwp_cases [of eng protocol s]) simp_all
  then show ?thesis
    by (simp add: buildMqttUri_def scheme_text_def isWebSocket_def buildUriIfNeeded_def Let_def
        split: option.splits scheme.splits)
qed

theorem buildUriIfNeeded_uri_witness:
  "m_uri (buildUriIfNeeded (begin_client ''ws://broker.example.com/mqtt'' MqttClient_new)) =
     Some ''ws://broker.example.com/mqtt'' \<and>
   m_uri (buildUriIfNeeded (setWebSocket False (begin_client ''ws://broker.example.com/mqtt'' MqttClient_new))) =
     Some ''mqtt://broker.example.com'' \<and>
   m_uri (buildUriIfNeeded app_client) = None"
  using buildUriIfNeeded_uri [of "\<lparr>scheme = Ws, host = ''broker.example.com'', port = 1883, path = ''/mqtt''\<rparr>"
      "begin_client ''ws://broker.example.com/mqtt'' MqttClient_new" engine_ok 5]
  by (simp add: sample_eval client_eval locator_eval)

subsection \<open>Calls of the application\<close>

text \<open>
  Claim C8, at the inputs it names. With a null pointer, \<^verbatim>\<open>connect\<close> takes the length of
  the identifier before it tests the pointer: a fault, not the result false. With the empty
  string it returns false without an engine call, after storing the empty identifier.
\<close>

theorem connect_null_clientId:
  "connect eng None s = Inl Null_dereference \<and>
   connect eng (Some []) s = Inr (False, s\<lparr>m_clientId := Some []\<rparr>)"
  by (simp add: connect_def)

text \<open>
  Claim C10. Without an engine client, \<^verbatim>\<open>publish\<close>, \<^verbatim>\<open>subscribe\<close> and \<^verbatim>\<open>unsubscribe\<close>
  return -1 and leave the client, its trace included, as it was; and a client that was
  constructed and then only configured has no engine client.
\<close>

theorem no_engine_client_returns_minus_one:
  "(m_client s = None \<longrightarrow>
      publish eng topic payload retain s = (- 1, s) \<and>
      subscribe eng topic qos s = (- 1, s) \<and>
      unsubscribe eng topic s = (- 1, s)) \<and>
   m_client (foldl configure MqttClient_new calls) = None"
  by (simp add: publish_def subscribe_def unsubscribe_def configured_client MqttClient_new_def)

theorem no_engine_client_returns_minus_one_witness:
  "m_client app_client = None \<and>
   publish engine_ok (Some ''sensor/data'') (Some ''21.5'') False app_client = (- 1, app_client) \<and>
   subscribe engine_ok (Some ''sensor/data'') 1 app_client = (- 1, app_client) \<and>
   unsubscribe engine_ok (Some ''sensor/data'') app_client = (- 1, app_client)"
  using no_engine_client_returns_minus_one [of app_client engine_ok "Some ''sensor/data''" "Some ''21.5''" False 1 "[]"]
  by (simp add: sample_eval MqttClient_new_def)

end
